theory Spec2Isabelle
  imports Complex_Main
begin

section \<open>Data model\<close>

text \<open>
  The gateway keeps one \<open>ServiceInstance\<close> object per service name in the
  \<open>ProcessManager\<close> (process/manager.ts). Dates are milliseconds since the epoch
  (\<open>int\<close>), optional fields (\<open>pid?\<close>, \<open>startTime?\<close>) are \<open>option\<close>s, and a
  thrown JavaScript value is a value of \<open>thrown\<close>.
\<close>

datatype ServiceStatus = Stopped | Starting | Running | Stopping | Error

record ServiceConfig =
  command :: string
  config_port :: nat
  timeout :: int
  healthCheck :: string
  env :: "(string \<times> string) list"
  instances :: nat
  autorestart :: bool
  maxRestarts :: nat

record ServiceInstance =
  name :: string
  config :: ServiceConfig
  status :: ServiceStatus
  port :: nat
  pid :: "nat option"
  lastActivity :: int
  startTime :: "int option"
  requestCount :: nat
  errorCount :: nat

text \<open>
  What a \<open>catch\<close> clause can receive: a \<open>DOMException\<close> (name, message), any other
  \<open>Error\<close> (message), or a value that is not an \<open>Error\<close> (its \<open>String(...)\<close>).
\<close>

datatype thrown = DOMException string string | JsError string | NonError string

text \<open>\<open>error instanceof Error ? error.message : String(error)\<close>\<close>

fun error_message :: "thrown \<Rightarrow> string" where
  "error_message (DOMException n m) = m"
| "error_message (JsError m) = m"
| "error_message (NonError s) = s"

text \<open>\<open>error instanceof DOMException && error.name === 'TimeoutError'\<close>\<close>

fun is_timeout :: "thrown \<Rightarrow> bool" where
  "is_timeout (DOMException n m) = (n = ''TimeoutError'')"
| "is_timeout (JsError m) = False"
| "is_timeout (NonError s) = False"

subsection \<open>Strings\<close>

text \<open>\<open>String.prototype.split\<close> with a one-character separator.\<close>

fun split :: "char \<Rightarrow> string \<Rightarrow> string list" where
  "split c [] = [[]]"
| "split c (x # xs) =
     (if x = c then [] # split c xs
      else (case split c xs of
              [] \<Rightarrow> [[x]]
            | w # ws \<Rightarrow> (x # w) # ws))"

text \<open>\<open>Array.prototype.join\<close>\<close>

fun join :: "string \<Rightarrow> string list \<Rightarrow> string" where
  "join sep [] = []"
| "join sep [w] = w"
| "join sep (w # ws) = w @ sep @ join sep ws"

text \<open>\<open>Number.prototype.toString\<close> on a non-negative integer.\<close>

definition digit :: "nat \<Rightarrow> char" where
  "digit d = char_of (48 + d)"

fun toString :: "nat \<Rightarrow> string" where
  "toString n = (if n < 10 then [digit n] else toString (n div 10) @ [digit (n mod 10)])"

declare toString.simps [simp del]

section \<open>Process supervisor (pm2)\<close>

text \<open>
  pm2 is an external collaborator. The model records every command handed to it in a
  log; what pm2 answers (\<open>None\<close> for success, \<open>Some e\<close> for a rejected promise) is
  an input of the operation that awaits the answer.
\<close>

record pm2Config =
  pm2_name :: string
  script :: string
  args :: "string list"
  pm2_instances :: nat
  pm2_autorestart :: bool
  max_restarts :: nat
  pm2_env :: "(string \<times> string) list"
  error_file :: string
  out_file :: string
  log_file :: string

datatype pm2_call = Pm2Start pm2Config | Pm2Stop string | Pm2Delete string

section \<open>ProcessManager\<close>

text \<open>
  \<open>services\<close> is the \<open>Map<string, ServiceInstance>\<close> in insertion order. Its only
  \<open>set\<close> call stores an instance under that instance's own \<open>name\<close>
  (\<open>registerService\<close>), nothing is ever deleted, and the stored objects are mutated in
  place, so the table is the list of instances and a lookup searches by \<open>name\<close>.
  This is the table of the instances that are \<open>ServiceInstance\<close>s; what the router
  registers from a value that is not a \<open>ServiceConfig\<close> is kept beside it (section
  Router).
\<close>

record ProcessManager =
  services :: "ServiceInstance list"
  pm2_log :: "pm2_call list"

definition getService :: "ProcessManager \<Rightarrow> string \<Rightarrow> ServiceInstance option" where
  "getService pm n = find (\<lambda>s. name s = n) (services pm)"

definition getAllServices :: "ProcessManager \<Rightarrow> ServiceInstance list" where
  "getAllServices pm = services pm"

text \<open>In-place mutation of the object stored under a name.\<close>

definition mutate :: "string \<Rightarrow> (ServiceInstance \<Rightarrow> ServiceInstance) \<Rightarrow> ProcessManager \<Rightarrow> ProcessManager" where
  "mutate n f pm = pm\<lparr>services := map (\<lambda>s. if name s = n then f s else s) (services pm)\<rparr>"

definition pm2_issue :: "pm2_call \<Rightarrow> ProcessManager \<Rightarrow> ProcessManager" where
  "pm2_issue c pm = pm\<lparr>pm2_log := pm2_log pm @ [c]\<rparr>"

definition registerService :: "int \<Rightarrow> string \<Rightarrow> ServiceConfig \<Rightarrow> ProcessManager \<Rightarrow> ProcessManager" where
  "registerService now n cfg pm =
     (if getService pm n \<noteq> None then pm
      else pm\<lparr>services := services pm @
             [\<lparr>name = n, config = cfg, status = Stopped, port = config_port cfg, pid = None,
               lastActivity = now, startTime = None, requestCount = 0, errorCount = 0\<rparr>]\<rparr>)"

text \<open>
  \<open>{ PORT: ..., ...service.config.env }\<close>: the properties of \<open>env\<close> are copied in
  their order onto the object that has \<open>PORT\<close>; a property that is there already keeps
  its place and takes the copied value, so a \<open>PORT\<close> of \<open>env\<close> replaces the port.
\<close>

fun assign :: "(string \<times> string) list \<Rightarrow> string \<Rightarrow> string \<Rightarrow> (string \<times> string) list" where
  "assign [] k v = [(k, v)]"
| "assign ((k', v') # kvs) k v = (if k' = k then (k, v) # kvs else (k', v') # assign kvs k v)"

fun spread :: "(string \<times> string) list \<Rightarrow> (string \<times> string) list \<Rightarrow> (string \<times> string) list" where
  "spread obj [] = obj"
| "spread obj ((k, v) # kvs) = spread (assign obj k v) kvs"

definition make_pm2Config :: "string \<Rightarrow> ServiceInstance \<Rightarrow> pm2Config" where
  "make_pm2Config n service =
     \<lparr>pm2_name = n,
      script = hd (split CHR '' '' (command (config service))),
      args = tl (split CHR '' '' (command (config service))),
      pm2_instances = instances (config service),
      pm2_autorestart = autorestart (config service),
      max_restarts = maxRestarts (config service),
      pm2_env = spread [(''PORT'', toString (config_port (config service)))] (env (config service)),
      error_file = ''logs/'' @ n @ ''-error.log'',
      out_file = ''logs/'' @ n @ ''-out.log'',
      log_file = ''logs/'' @ n @ ''-combined.log''\<rparr>"

text \<open>
  \<open>startService\<close> runs in two pieces, separated by \<open>await pm2.start\<close>.
  \<open>startService_begin\<close> is the synchronous piece: it either finishes the call
  (\<open>Inl\<close>: thrown or returned) or has set \<open>starting\<close>, handed the start command to pm2
  and now waits (\<open>Inr\<close>). \<open>startService_resume\<close> is the piece that runs when pm2
  answers; \<open>now\<close> is the clock at that moment.
\<close>

definition not_registered :: "string \<Rightarrow> thrown" where
  "not_registered n = JsError (''Service '' @ n @ '' not registered'')"

definition startService_begin ::
  "string \<Rightarrow> ProcessManager \<Rightarrow> ((thrown + ServiceInstance) + unit) \<times> ProcessManager" where
  "startService_begin n pm =
     (case getService pm n of
        None \<Rightarrow> (Inl (Inl (not_registered n)), pm)
      | Some service \<Rightarrow>
          if status service = Running \<or> status service = Starting then (Inl (Inr service), pm)
          else (Inr (),
                pm2_issue (Pm2Start (make_pm2Config n service))
                  (mutate n (\<lambda>s. s\<lparr>status := Starting\<rparr>) pm)))"

definition startService_resume ::
  "thrown option \<Rightarrow> int \<Rightarrow> string \<Rightarrow> ProcessManager \<Rightarrow> (thrown + ServiceInstance option) \<times> ProcessManager" where
  "startService_resume answer now n pm =
     (case answer of
        None \<Rightarrow>
          (let pm' = mutate n (\<lambda>s. s\<lparr>status := Running, startTime := Some now, lastActivity := now\<rparr>) pm
           in (Inr (getService pm' n), pm'))
      | Some e \<Rightarrow>
          (Inl e, mutate n (\<lambda>s. s\<lparr>status := Error, errorCount := errorCount s + 1\<rparr>) pm))"

text \<open>
  The whole call, when nothing else runs in between. The result is the thrown value or
  the returned instance; the instance is an object of the table, so after a mutation it
  is read from the table again.
\<close>

definition startService ::
  "thrown option \<Rightarrow> int \<Rightarrow> string \<Rightarrow> ProcessManager \<Rightarrow> (thrown + ServiceInstance option) \<times> ProcessManager" where
  "startService answer now n pm =
     (case startService_begin n pm of
        (Inl (Inl e), pm') \<Rightarrow> (Inl e, pm')
      | (Inl (Inr service), pm') \<Rightarrow> (Inr (Some service), pm')
      | (Inr u, pm') \<Rightarrow> startService_resume answer now n pm')"

text \<open>
  \<open>stopService\<close> awaits \<open>pm2.stop\<close> and then \<open>pm2.delete\<close>; \<open>stop_answer\<close> and
  \<open>delete_answer\<close> are what pm2 says to each. \<open>pm2.delete\<close> is issued only when
  \<open>pm2.stop\<close> succeeded.
\<close>

definition stopService ::
  "thrown option \<Rightarrow> thrown option \<Rightarrow> string \<Rightarrow> ProcessManager \<Rightarrow> (thrown + unit) \<times> ProcessManager" where
  "stopService stop_answer delete_answer n pm =
     (case getService pm n of
        None \<Rightarrow> (Inl (not_registered n), pm)
      | Some service \<Rightarrow>
          if status service = Stopped \<or> status service = Stopping then (Inr (), pm)
          else
            (let pm1 = pm2_issue (Pm2Stop n) (mutate n (\<lambda>s. s\<lparr>status := Stopping\<rparr>) pm);
                 failed = (\<lambda>e p. (Inl e, mutate n (\<lambda>s. s\<lparr>status := Error, errorCount := errorCount s + 1\<rparr>) p))
             in case stop_answer of
                  Some e \<Rightarrow> failed e pm1
                | None \<Rightarrow>
                    (let pm2 = pm2_issue (Pm2Delete n) pm1
                     in case delete_answer of
                          Some e \<Rightarrow> failed e pm2
                        | None \<Rightarrow>
                            (Inr (), mutate n (\<lambda>s. s\<lparr>status := Stopped, pid := None, startTime := None\<rparr>) pm2))))"

definition updateActivity :: "int \<Rightarrow> string \<Rightarrow> ProcessManager \<Rightarrow> ProcessManager" where
  "updateActivity now serviceName pm =
     mutate serviceName (\<lambda>s. s\<lparr>lastActivity := now, requestCount := requestCount s + 1\<rparr>) pm"

text \<open>
  \<open>getInactiveServices(timeoutMs: number)\<close>. A JavaScript number is a finite double
  (the real number it denotes), an infinity or \<open>NaN\<close>; the configuration schema asks of
  a timeout only that it is a number of at least 10000, so it need not be whole.
\<close>

datatype number = Num real | PosInfinity | NegInfinity | NaN

text \<open>
  \<open>Date.now() - timeoutMs\<close>. The difference of two finite doubles is the exact
  difference rounded to a double; \<open>fl\<close> is that rounding of the platform (it gives an
  infinity on overflow, and the number itself when the number is a double).
\<close>

definition now_minus :: "(real \<Rightarrow> number) \<Rightarrow> int \<Rightarrow> number \<Rightarrow> number" where
  "now_minus fl now timeoutMs =
     (case timeoutMs of
        Num t \<Rightarrow> fl (of_int now - t)
      | PosInfinity \<Rightarrow> NegInfinity
      | NegInfinity \<Rightarrow> PosInfinity
      | NaN \<Rightarrow> NaN)"

text \<open>
  \<open>new Date(value)\<close> keeps the time value \<open>TimeClip(value)\<close>: none (an Invalid
  Date, \<open>None\<close>) when the value is not finite or is beyond 8.64e15 milliseconds either
  way, and the value cut to a whole number towards zero otherwise.
\<close>

definition to_integer :: "real \<Rightarrow> int" where
  "to_integer d = (if 0 \<le> d then \<lfloor>d\<rfloor> else \<lceil>d\<rceil>)"

definition new_Date :: "number \<Rightarrow> int option" where
  "new_Date v =
     (case v of
        Num d \<Rightarrow> if \<bar>d\<bar> > 8640000000000000 then None else Some (to_integer d)
      | PosInfinity \<Rightarrow> None
      | NegInfinity \<Rightarrow> None
      | NaN \<Rightarrow> None)"

text \<open>
  \<open>service.lastActivity < cutoff\<close> compares the time values; \<open>lastActivity\<close> is a
  valid date (it is always made with \<open>new Date()\<close>), and a comparison with an Invalid
  Date is false.
\<close>

definition date_less :: "int \<Rightarrow> int option \<Rightarrow> bool" where
  "date_less a b = (case b of None \<Rightarrow> False | Some c \<Rightarrow> a < c)"

text \<open>\<open>now\<close> is the one reading of \<open>Date.now()\<close>.\<close>

definition getInactiveServices ::
  "(real \<Rightarrow> number) \<Rightarrow> int \<Rightarrow> number \<Rightarrow> ProcessManager \<Rightarrow> ServiceInstance list" where
  "getInactiveServices fl now timeoutMs pm =
     (let cutoff = new_Date (now_minus fl now timeoutMs)
      in filter (\<lambda>service. status service = Running \<and> date_less (lastActivity service) cutoff)
           (getAllServices pm))"

section \<open>HTTP\<close>

text \<open>
  The platform's \<open>Headers\<close> object: a table from lower-cased header names to values;
  \<open>set\<close> lower-cases the name it is given and replaces the value.
\<close>

type_synonym Headers = "string \<rightharpoonup> string"

definition lower_char :: "char \<Rightarrow> char" where
  "lower_char c = (if 65 \<le> (of_char c :: nat) \<and> (of_char c :: nat) \<le> 90 then char_of ((of_char c :: nat) + 32) else c)"

definition headers_set :: "Headers \<Rightarrow> string \<Rightarrow> string \<Rightarrow> Headers" where
  "headers_set h k v = h(map lower_char k \<mapsto> v)"

text \<open>
  The parts of the incoming \<open>Request\<close> that the gateway reads: \<open>pathname\<close>,
  \<open>search\<close> and \<open>protocol\<close> are the components of \<open>new URL(request.url)\<close>.
\<close>

record Request =
  req_method :: string
  pathname :: string
  search :: string
  protocol :: string
  req_headers :: Headers
  req_body :: "string option"

record Response =
  resp_status :: nat
  statusText :: string
  resp_headers :: Headers
  resp_body :: "string option"

text \<open>The arguments of an outbound \<open>fetch\<close> call.\<close>

record FetchCall =
  url :: string
  fetch_method :: string
  fetch_headers :: Headers
  fetch_body :: "string option"

text \<open>
  What awaiting a \<open>fetch\<close> gives: the response that the call resolves with, or a
  thrown value. The gateway passes no \<open>redirect\<close> option, so \<open>fetch\<close> follows a
  redirect that names a location, and the response it resolves with is the one at the
  end of the redirects: its status is a 3xx only when \<open>fetch\<close> does not follow it
  (304, or a redirect status without a location).
\<close>

datatype fetch_answer = Fulfilled Response | Rejected thrown

text \<open>\<open>Response.ok\<close> of the Fetch API: the status is in the range 200 to 299.\<close>

definition ok :: "Response \<Rightarrow> bool" where
  "ok response = (200 \<le> resp_status response \<and> resp_status response \<le> 299)"

section \<open>Health checker\<close>

datatype HealthStatus = Healthy | Unhealthy | Timeout

record HealthCheckResult =
  hc_status :: HealthStatus
  responseTime :: int
  hc_error :: "string option"

text \<open>
  One probe. \<open>t0\<close> and \<open>t1\<close> are \<open>Date.now()\<close> before the request and after its
  answer, \<open>answer\<close> is what the awaited \<open>fetch\<close> of \<open>healthCheck_call\<close> gives, after
  the redirects it followed
  (with \<open>AbortSignal.timeout(5000)\<close> the platform rejects with a \<open>DOMException\<close>
  named \<open>TimeoutError\<close> after five seconds).
\<close>

definition healthCheck_call :: "ServiceInstance \<Rightarrow> FetchCall" where
  "healthCheck_call service =
     \<lparr>url = ''http://localhost:'' @ toString (port service) @ healthCheck (config service),
      fetch_method = ''GET'',
      fetch_headers = headers_set Map.empty ''User-Agent'' ''Gateway-Health-Check/1.0'',
      fetch_body = None\<rparr>"

definition healthCheck :: "int \<Rightarrow> int \<Rightarrow> fetch_answer \<Rightarrow> string \<Rightarrow> ProcessManager \<Rightarrow> HealthCheckResult" where
  "healthCheck t0 t1 answer serviceName pm =
     (case getService pm serviceName of
        None \<Rightarrow> \<lparr>hc_status = Unhealthy, responseTime = 0, hc_error = Some ''Service not running''\<rparr>
      | Some service \<Rightarrow>
          if status service \<noteq> Running
          then \<lparr>hc_status = Unhealthy, responseTime = 0, hc_error = Some ''Service not running''\<rparr>
          else (case answer of
                  Fulfilled response \<Rightarrow>
                    if ok response
                    then \<lparr>hc_status = Healthy, responseTime = t1 - t0, hc_error = None\<rparr>
                    else \<lparr>hc_status = Unhealthy, responseTime = t1 - t0,
                           hc_error = Some (''HTTP '' @ toString (resp_status response))\<rparr>
                | Rejected e \<Rightarrow>
                    \<lparr>hc_status = (if is_timeout e then Timeout else Unhealthy),
                     responseTime = t1 - t0,
                     hc_error = Some (error_message e)\<rparr>))"

section \<open>Activity monitor\<close>

text \<open>
  \<open>performHealthChecks\<close> takes the running instances and, for each, awaits
  \<open>healthCheck(service.name)\<close> and then increments \<open>service.errorCount\<close> on that
  object unless the result is \<open>healthy\<close>. Every \<open>healthCheck\<close> call runs its
  synchronous part (the lookup and the status test) while the list is being mapped,
  on the table as it is then. \<open>probe\<close> gives, per service name, the two clock
  readings and the answer of that service's request. \<open>healthCheck\<close> catches
  everything it awaits, so the \<open>catch\<close> branch of the loop body is never taken.
\<close>

definition checked :: "(string \<Rightarrow> int \<times> int \<times> fetch_answer) \<Rightarrow> ProcessManager \<Rightarrow> ServiceInstance \<Rightarrow> HealthCheckResult" where
  "checked probe pm service =
     (case probe (name service) of
        (t0, t1, answer) \<Rightarrow> healthCheck t0 t1 answer (name service) pm)"

definition performHealthChecks :: "(string \<Rightarrow> int \<times> int \<times> fetch_answer) \<Rightarrow> ProcessManager \<Rightarrow> ProcessManager" where
  "performHealthChecks probe pm =
     pm\<lparr>services :=
          map (\<lambda>service.
                 if status service = Running
                 then (if hc_status (checked probe pm service) = Healthy then service
                       else service\<lparr>errorCount := errorCount service + 1\<rparr>)
                 else service)
            (getAllServices pm)\<rparr>"

section \<open>Router\<close>

text \<open>
  The configuration that the router reads (\<open>configManager.getConfig()\<close>).
  \<open>config.services\<close> is the plain object that the schema's record parser builds;
  \<open>config_services\<close> are its own properties, the configured services.
\<close>

record Config =
  config_services :: "string \<rightharpoonup> ServiceConfig"

text \<open>
  \<open>config.services[serviceName]\<close> is a property lookup on that object: it finds an own
  property, and otherwise a member that every plain object inherits from
  \<open>Object.prototype\<close>. The inherited members are functions, and \<open>__proto__\<close> is
  \<open>Object.prototype\<close> itself: all of them truthy, none of them a \<open>ServiceConfig\<close>,
  and every field that the gateway reads from one (\<open>port\<close>, \<open>command\<close>, ...) is
  \<open>undefined\<close>.
\<close>

definition object_prototype_names :: "string list" where
  "object_prototype_names =
     [''constructor'', ''hasOwnProperty'', ''isPrototypeOf'', ''propertyIsEnumerable'',
      ''toLocaleString'', ''toString'', ''valueOf'', ''__proto__'', ''__defineGetter__'',
      ''__defineSetter__'', ''__lookupGetter__'', ''__lookupSetter__'']"

datatype property = Undefined | Own ServiceConfig | Inherited

definition services_lookup :: "Config \<Rightarrow> string \<Rightarrow> property" where
  "services_lookup cfg k =
     (case config_services cfg k of
        Some serviceConfig \<Rightarrow> Own serviceConfig
      | None \<Rightarrow> if k \<in> set object_prototype_names then Inherited else Undefined)"

text \<open>
  \<open>registerService\<close> stores whatever value it is given as \<open>config\<close>. An instance made
  from an inherited member is not a \<open>ServiceInstance\<close> of the data model: it has the
  fields below, its \<open>config.command\<close> and its \<open>port\<close> are \<open>undefined\<close>, and
  \<open>pid\<close> and \<open>startTime\<close> are never set on it. Such instances are kept apart from
  the table of well-typed instances; together the two are the \<open>Map\<close> of the process
  manager (no name is in both, since a name is registered once). The code never makes
  such an instance \<open>running\<close>: \<open>running\<close> is assigned only after \<open>pm2.start\<close>, and
  its start throws before that; so the operations that pick the running instances
  (\<open>getInactiveServices\<close>, the health loop) find the same ones in the table as in the
  \<open>Map\<close>.
\<close>

record Stranger =
  stranger_name :: string
  stranger_status :: ServiceStatus
  stranger_lastActivity :: int
  stranger_requestCount :: nat
  stranger_errorCount :: nat

record Gateway =
  table :: ProcessManager
  strangers :: "Stranger list"

datatype slot = Typed ServiceInstance | Strange Stranger

fun slot_name :: "slot \<Rightarrow> string" where
  "slot_name (Typed service) = name service"
| "slot_name (Strange x) = stranger_name x"

fun slot_status :: "slot \<Rightarrow> ServiceStatus" where
  "slot_status (Typed service) = status service"
| "slot_status (Strange x) = stranger_status x"

text \<open>\<open>${service.port}\<close> in a template string.\<close>

fun slot_port :: "slot \<Rightarrow> string" where
  "slot_port (Typed service) = toString (port service)"
| "slot_port (Strange x) = ''undefined''"

text \<open>\<open>processManager.getService(name)\<close> on the whole \<open>Map\<close>.\<close>

definition find_stranger :: "Gateway \<Rightarrow> string \<Rightarrow> Stranger option" where
  "find_stranger g n = find (\<lambda>x. stranger_name x = n) (strangers g)"

definition get_instance :: "Gateway \<Rightarrow> string \<Rightarrow> slot option" where
  "get_instance g n =
     (case getService (table g) n of
        Some service \<Rightarrow> Some (Typed service)
      | None \<Rightarrow> map_option Strange (find_stranger g n))"

definition mutate_stranger :: "string \<Rightarrow> (Stranger \<Rightarrow> Stranger) \<Rightarrow> Gateway \<Rightarrow> Gateway" where
  "mutate_stranger n f g =
     g\<lparr>strangers := map (\<lambda>x. if stranger_name x = n then f x else x) (strangers g)\<rparr>"

text \<open>
  \<open>processManager.registerService(name, value)\<close> on the whole \<open>Map\<close>, for a value
  that is a configuration entry and for one that is an inherited member.
\<close>

definition register_entry :: "int \<Rightarrow> string \<Rightarrow> ServiceConfig \<Rightarrow> Gateway \<Rightarrow> Gateway" where
  "register_entry now n serviceConfig g =
     (if get_instance g n \<noteq> None then g
      else g\<lparr>table := registerService now n serviceConfig (table g)\<rparr>)"

definition register_stranger :: "int \<Rightarrow> string \<Rightarrow> Gateway \<Rightarrow> Gateway" where
  "register_stranger now n g =
     (if get_instance g n \<noteq> None then g
      else g\<lparr>strangers := strangers g @
             [\<lparr>stranger_name = n, stranger_status = Stopped, stranger_lastActivity = now,
               stranger_requestCount = 0, stranger_errorCount = 0\<rparr>]\<rparr>)"

text \<open>
  \<open>processManager.startService(name)\<close> on the whole \<open>Map\<close>, in its two pieces. For a
  well-typed instance it is \<open>startService_begin\<close> and \<open>startService_resume\<close>. For a
  stranger that is not \<open>running\<close> or \<open>starting\<close>, the \<open>try\<close> block sets
  \<open>starting\<close> and then throws a \<open>TypeError\<close> at \<open>service.config.command.split\<close>,
  before anything is handed to pm2; the \<open>catch\<close> block sets \<open>error\<close>, increments the
  error counter and throws it on. (The message of that error is the engine's and only
  goes to the log.)
\<close>

definition command_undefined :: thrown where
  "command_undefined = JsError ''undefined is not an object''"

definition start_instance_begin ::
  "string \<Rightarrow> Gateway \<Rightarrow> ((thrown + slot) + unit) \<times> Gateway" where
  "start_instance_begin n g =
     (case get_instance g n of
        None \<Rightarrow> (Inl (Inl (not_registered n)), g)
      | Some (Typed service) \<Rightarrow>
          (case startService_begin n (table g) of
             (Inl (Inl e), pm) \<Rightarrow> (Inl (Inl e), g\<lparr>table := pm\<rparr>)
           | (Inl (Inr returned), pm) \<Rightarrow> (Inl (Inr (Typed returned)), g\<lparr>table := pm\<rparr>)
           | (Inr u, pm) \<Rightarrow> (Inr (), g\<lparr>table := pm\<rparr>))
      | Some (Strange x) \<Rightarrow>
          if stranger_status x = Running \<or> stranger_status x = Starting
          then (Inl (Inr (Strange x)), g)
          else (Inl (Inl command_undefined),
                mutate_stranger n
                  (\<lambda>x. x\<lparr>stranger_status := Error, stranger_errorCount := stranger_errorCount x + 1\<rparr>) g))"

text \<open>Only the start of a well-typed instance reaches \<open>await pm2.start\<close>.\<close>

definition start_instance_resume ::
  "thrown option \<Rightarrow> int \<Rightarrow> string \<Rightarrow> Gateway \<Rightarrow> (thrown + slot option) \<times> Gateway" where
  "start_instance_resume answer now n g =
     (case startService_resume answer now n (table g) of
        (Inl e, pm) \<Rightarrow> (Inl e, g\<lparr>table := pm\<rparr>)
      | (Inr started, pm) \<Rightarrow> (Inr (map_option Typed started), g\<lparr>table := pm\<rparr>))"

definition start_instance ::
  "thrown option \<Rightarrow> int \<Rightarrow> string \<Rightarrow> Gateway \<Rightarrow> (thrown + slot option) \<times> Gateway" where
  "start_instance answer now n g =
     (case start_instance_begin n g of
        (Inl (Inl e), g') \<Rightarrow> (Inl e, g')
      | (Inl (Inr returned), g') \<Rightarrow> (Inr (Some returned), g')
      | (Inr u, g') \<Rightarrow> start_instance_resume answer now n g')"

text \<open>\<open>processManager.updateActivity(name)\<close> on the whole \<open>Map\<close>.\<close>

definition touch_instance :: "int \<Rightarrow> string \<Rightarrow> Gateway \<Rightarrow> Gateway" where
  "touch_instance now n g =
     (case get_instance g n of
        None \<Rightarrow> g
      | Some (Typed service) \<Rightarrow> g\<lparr>table := updateActivity now n (table g)\<rparr>
      | Some (Strange x) \<Rightarrow>
          mutate_stranger n
            (\<lambda>x. x\<lparr>stranger_lastActivity := now, stranger_requestCount := stranger_requestCount x + 1\<rparr>) g)"

text \<open>
  What the world gives to one request while it is handled, in the order in which the
  handler asks: the clock when the instance is registered, the answer of pm2 to the
  start command and the clock at that answer, the clock when the activity is recorded,
  the answer of the upstream \<open>fetch\<close>, and the value of \<open>crypto.randomUUID()\<close>.
\<close>

record RequestEnv =
  t_register :: int
  start_answer :: "thrown option"
  t_started :: int
  t_activity :: int
  upstream :: fetch_answer
  request_id :: string

text \<open>
  \<open>ensureServiceRunning\<close>, with nothing else running in between. The result is the
  instance, or \<open>None\<close> for \<open>null\<close>/\<open>undefined\<close>. The one-second wait after
  \<open>startService\<close> changes nothing in the table.
\<close>

definition ensureServiceRunning ::
  "Config \<Rightarrow> RequestEnv \<Rightarrow> string \<Rightarrow> Gateway \<Rightarrow> slot option \<times> Gateway" where
  "ensureServiceRunning cfg e serviceName g =
     (if serviceName = ''.well-known'' \<or> serviceName = ''favicon.ico'' then (None, g)
      else
        (case (case get_instance g serviceName of
                 None \<Rightarrow>
                   (case services_lookup cfg serviceName of
                      Undefined \<Rightarrow> None
                    | Own serviceConfig \<Rightarrow>
                        (let g1 = register_entry (t_register e) serviceName serviceConfig g
                         in Some (get_instance g1 serviceName, g1))
                    | Inherited \<Rightarrow>
                        (let g1 = register_stranger (t_register e) serviceName g
                         in Some (get_instance g1 serviceName, g1)))
               | Some service \<Rightarrow> Some (Some service, g)) of
           None \<Rightarrow> (None, g)
         | Some (None, g1) \<Rightarrow> (None, g1)
         | Some (Some service, g1) \<Rightarrow>
             if slot_status service \<noteq> Running
             then (case start_instance (start_answer e) (t_started e) serviceName g1 of
                     (Inl err, g2) \<Rightarrow> (None, g2)
                   | (Inr started, g2) \<Rightarrow> (get_instance g2 serviceName, g2))
             else (Some service, g1)))"

definition dquote :: char where
  "dquote = CHR 0x22"

text \<open>
  \<open>new Response(JSON.stringify({ error: msg }), { status, headers: { 'Content-Type':
  'application/json' } })\<close> for a message without characters that JSON escapes.
\<close>

definition error_response :: "nat \<Rightarrow> string \<Rightarrow> Response" where
  "error_response code msg =
     \<lparr>resp_status = code,
      statusText = [],
      resp_headers = headers_set Map.empty ''Content-Type'' ''application/json'',
      resp_body = Some (''{'' @ [dquote] @ ''error'' @ [dquote] @ '':'' @ [dquote] @ msg @ [dquote] @ ''}'')\<rparr>"

definition endsWith :: "string \<Rightarrow> char \<Rightarrow> bool" where
  "endsWith s c = (s \<noteq> [] \<and> last s = c)"

text \<open>\<open>url.pathname.split('/').filter(Boolean)\<close>\<close>

definition path_segments :: "string \<Rightarrow> string list" where
  "path_segments p = filter (\<lambda>w. w \<noteq> []) (split CHR ''/'' p)"

definition forward_call :: "Request \<Rightarrow> string list \<Rightarrow> slot \<Rightarrow> FetchCall" where
  "forward_call request segments service =
     (let strippedPath = ''/'' @ join ''/'' (tl segments);
          targetPath = (if strippedPath = ''/'' \<and> endsWith (pathname request) CHR ''/'' = False
                           \<and> length segments = 1
                        then ''/'' else strippedPath);
          targetUrl = ''http://localhost:'' @ slot_port service @ targetPath @ search request;
          headers = headers_set (headers_set (req_headers request) ''X-Forwarded-For'' ''gateway'')
                      ''X-Forwarded-Proto'' (butlast (protocol request))
      in \<lparr>url = targetUrl, fetch_method = req_method request, fetch_headers = headers,
          fetch_body = req_body request\<rparr>)"

text \<open>
  \<open>handleRequest\<close> gives the response, the \<open>Map\<close> afterwards, and the outbound
  \<open>fetch\<close> call if one was made. Inside the \<open>try\<close> only the awaited \<open>fetch\<close> throws.
\<close>

definition handleRequest ::
  "Config \<Rightarrow> RequestEnv \<Rightarrow> Request \<Rightarrow> Gateway \<Rightarrow> Response \<times> Gateway \<times> FetchCall option" where
  "handleRequest cfg e request g =
     (let segments = path_segments (pathname request)
      in case segments of
           [] \<Rightarrow> (error_response 404 ''Service not specified'', g, None)
         | serviceName # rest \<Rightarrow>
             (case ensureServiceRunning cfg e serviceName g of
                (None, g1) \<Rightarrow> (error_response 503 ''Service unavailable'', g1, None)
              | (Some service, g1) \<Rightarrow>
                  (let g2 = touch_instance (t_activity e) (slot_name service) g1;
                       call = forward_call request segments service
                   in case upstream e of
                        Fulfilled response \<Rightarrow>
                          (\<lparr>resp_status = resp_status response,
                            statusText = statusText response,
                            resp_headers =
                              headers_set (headers_set (resp_headers response) ''X-Gateway-Service''
                                             (slot_name service))
                                ''X-Gateway-Request-ID'' (request_id e),
                            resp_body = resp_body response\<rparr>, g2, Some call)
                      | Rejected err \<Rightarrow>
                          (if is_timeout err then error_response 504 ''Gateway timeout''
                           else error_response 500 ''Internal server error'', g2, Some call))))"

section \<open>Concurrent requests for one service\<close>

text \<open>
  The runtime runs one piece of JavaScript at a time: a handler runs until it reaches an
  \<open>await\<close> and is resumed later, and other handlers run in between. A request for
  the service \<open>n\<close> that is inside \<open>ensureServiceRunning\<close> is at one of these places:
  \<^item> \<open>Entry\<close>: the handler has not run yet;
  \<^item> \<open>Registered\<close>: at \<open>await this.processManager.registerService(...)\<close>;
  \<^item> \<open>AwaitStart\<close>: inside \<open>startService\<close>, at \<open>await ... pm2.start\<close>: its start
    command is with the supervisor and not answered yet;
  \<^item> \<open>StartSettled r\<close>: at \<open>await this.processManager.startService(...)\<close>, and that
    call has returned (\<open>Inr\<close>) or thrown (\<open>Inl\<close>);
  \<^item> \<open>Settling\<close>: at the one-second \<open>setTimeout\<close>;
  \<^item> \<open>Finished r\<close>: \<open>ensureServiceRunning\<close> has returned \<open>r\<close>.
\<close>

datatype pc = Entry | Registered | AwaitStart | StartSettled "thrown + unit" | Settling
  | Finished "slot option"

record System =
  gateway :: Gateway
  tasks :: "pc list"

text \<open>The table of well-typed instances and the log of pm2 commands.\<close>

definition manager :: "System \<Rightarrow> ProcessManager" where
  "manager sys = table (gateway sys)"

text \<open>
  The requests share the \<open>Map\<close> of the process manager (\<open>gateway\<close>).
  \<open>Run i now\<close> resumes request \<open>i\<close> and runs it to its next \<open>await\<close>;
  \<open>Pm2Answer i answer now\<close> is the supervisor answering the start command of request
  \<open>i\<close>. \<open>now\<close> is the clock while that piece runs.
\<close>

datatype event = Run nat int | Pm2Answer nat "thrown option" int

text \<open>
  The tail of \<open>ensureServiceRunning\<close>, up to its next \<open>await\<close>:
  \<open>if (service && service.status !== 'running') { await startService ... } return service\<close>.
\<close>

definition call_start :: "string \<Rightarrow> slot option \<Rightarrow> Gateway \<Rightarrow> pc \<times> Gateway" where
  "call_start n service g =
     (case service of
        None \<Rightarrow> (Finished None, g)
      | Some sv \<Rightarrow>
          if slot_status sv \<noteq> Running
          then (case start_instance_begin n g of
                  (Inl (Inl e), g') \<Rightarrow> (StartSettled (Inl e), g')
                | (Inl (Inr s), g') \<Rightarrow> (StartSettled (Inr ()), g')
                | (Inr u, g') \<Rightarrow> (AwaitStart, g'))
          else (Finished (Some sv), g))"

definition run_task :: "Config \<Rightarrow> string \<Rightarrow> int \<Rightarrow> pc \<Rightarrow> Gateway \<Rightarrow> pc \<times> Gateway" where
  "run_task cfg n now p g =
     (case p of
        Entry \<Rightarrow>
          if n = ''.well-known'' \<or> n = ''favicon.ico'' then (Finished None, g)
          else (case get_instance g n of
                  None \<Rightarrow>
                    (case services_lookup cfg n of
                       Undefined \<Rightarrow> (Finished None, g)
                     | Own serviceConfig \<Rightarrow> (Registered, register_entry now n serviceConfig g)
                     | Inherited \<Rightarrow> (Registered, register_stranger now n g))
                | Some service \<Rightarrow> call_start n (Some service) g)
      | Registered \<Rightarrow> call_start n (get_instance g n) g
      | AwaitStart \<Rightarrow> (AwaitStart, g)
      | StartSettled r \<Rightarrow> (case r of Inl e \<Rightarrow> (Finished None, g) | Inr u \<Rightarrow> (Settling, g))
      | Settling \<Rightarrow> (Finished (get_instance g n), g)
      | Finished r \<Rightarrow> (Finished r, g))"

fun step :: "Config \<Rightarrow> string \<Rightarrow> event \<Rightarrow> System \<Rightarrow> System" where
  "step cfg n (Run i now) sys =
     (if i < length (tasks sys)
      then (case run_task cfg n now (tasks sys ! i) (gateway sys) of
              (p, g) \<Rightarrow> \<lparr>gateway = g, tasks = (tasks sys)[i := p]\<rparr>)
      else sys)"
| "step cfg n (Pm2Answer i answer now) sys =
     (if i < length (tasks sys) \<and> tasks sys ! i = AwaitStart
      then (case start_instance_resume answer now n (gateway sys) of
              (r, g) \<Rightarrow>
                \<lparr>gateway = g,
                 tasks = (tasks sys)[i := StartSettled (case r of Inl e \<Rightarrow> Inl e | Inr s \<Rightarrow> Inr ())]\<rparr>)
      else sys)"

fun run :: "Config \<Rightarrow> string \<Rightarrow> event list \<Rightarrow> System \<Rightarrow> System" where
  "run cfg n [] sys = sys"
| "run cfg n (ev # evs) sys = run cfg n evs (step cfg n ev sys)"

text \<open>
  \<open>N\<close> requests that have all been received and not yet handled, on a \<open>Map\<close> that
  holds the well-typed instances of \<open>pm\<close> and nothing else.
\<close>

definition arrivals :: "nat \<Rightarrow> ProcessManager \<Rightarrow> System" where
  "arrivals N pm = \<lparr>gateway = \<lparr>table = pm, strangers = []\<rparr>, tasks = replicate N Entry\<rparr>"

text \<open>Start commands for \<open>n\<close> handed to the supervisor so far, and those not yet answered.\<close>

definition starts :: "string \<Rightarrow> ProcessManager \<Rightarrow> nat" where
  "starts n pm = length (filter (\<lambda>c. case c of Pm2Start c' \<Rightarrow> pm2_name c' = n | _ \<Rightarrow> False) (pm2_log pm))"

definition in_flight :: "System \<Rightarrow> nat" where
  "in_flight sys = length (filter (\<lambda>p. p = AwaitStart) (tasks sys))"

text \<open>A request has passed its call of \<open>startService\<close>, or has returned without one.\<close>

fun passed :: "pc \<Rightarrow> bool" where
  "passed Entry = False"
| "passed Registered = False"
| "passed p = True"

text \<open>
  The two names that \<open>ensureServiceRunning\<close> answers with \<open>null\<close> before it looks
  anything up.
\<close>

definition ignored :: "string \<Rightarrow> bool" where
  "ignored n = (n = ''.well-known'' \<or> n = ''favicon.ico'')"

text \<open>An event that is not a failed start: a handler piece, or the supervisor's success.\<close>

fun no_failure :: "event \<Rightarrow> bool" where
  "no_failure (Run i now) = True"
| "no_failure (Pm2Answer i answer now) = (answer = None)"

text \<open>
  Two invariants of the interleaved system. \<open>no_overlap\<close>: at most one start command
  is unanswered, and while one is, the instance is \<open>starting\<close>. \<open>window_inv\<close>, for
  a service that was cold when the requests arrived and while no start has failed: the
  instance is absent (and no request has run), or \<open>stopped\<close> (and no request has passed
  its call of \<open>startService\<close>), with \<open>k\<close> start commands so far, or it is
  \<open>starting\<close> or \<open>running\<close> with \<open>k + 1\<close>; the name has a configuration entry and
  no stranger is registered under it.
\<close>

definition no_overlap :: "string \<Rightarrow> System \<Rightarrow> bool" where
  "no_overlap n sys =
     (in_flight sys = 0 \<or>
      in_flight sys = 1 \<and> map_option status (getService (manager sys) n) = Some Starting)"

definition window_inv :: "Config \<Rightarrow> string \<Rightarrow> nat \<Rightarrow> System \<Rightarrow> bool" where
  "window_inv cfg n k sys =
     (config_services cfg n \<noteq> None \<and> find_stranger (gateway sys) n = None \<and>
      (case map_option status (getService (manager sys) n) of
        None \<Rightarrow>
          list_all (\<lambda>p. p = Entry) (tasks sys)
          \<and> starts n (manager sys) = k
      | Some st \<Rightarrow>
          st = Stopped \<and> list_all (\<lambda>p. \<not> passed p) (tasks sys) \<and> starts n (manager sys) = k
          \<or> (st = Starting \<or> st = Running) \<and> starts n (manager sys) = k + 1))"

section \<open>Example values\<close>

definition example_service_config :: ServiceConfig where
  "example_service_config =
     \<lparr>command = ''bun run hello.ts'', config_port = 3001, timeout = 300000,
      healthCheck = ''/health'', env = [], instances = 1, autorestart = False, maxRestarts = 3\<rparr>"

definition example_instance :: "string \<Rightarrow> ServiceStatus \<Rightarrow> ServiceInstance" where
  "example_instance n st =
     \<lparr>name = n, config = example_service_config, status = st, port = 3001, pid = None,
      lastActivity = 1000, startTime = None, requestCount = 0, errorCount = 0\<rparr>"

definition example_manager :: "ServiceInstance list \<Rightarrow> ProcessManager" where
  "example_manager xs = \<lparr>services = xs, pm2_log = []\<rparr>"

definition example_gateway :: "ServiceInstance list \<Rightarrow> Gateway" where
  "example_gateway xs = \<lparr>table = example_manager xs, strangers = []\<rparr>"

definition no_headers :: Headers where
  "no_headers = Map.empty"

definition example_config :: "string list \<Rightarrow> Config" where
  "example_config ns = \<lparr>config_services = map_of (map (\<lambda>n. (n, example_service_config)) ns)\<rparr>"

definition example_response :: "nat \<Rightarrow> Response" where
  "example_response code =
     \<lparr>resp_status = code, statusText = [], resp_headers = no_headers, resp_body = None\<rparr>"

definition example_env :: "thrown option \<Rightarrow> fetch_answer \<Rightarrow> RequestEnv" where
  "example_env a u =
     \<lparr>t_register = 2000, start_answer = a, t_started = 2500, t_activity = 3600,
      upstream = u, request_id = ''0000''\<rparr>"

definition example_request :: "string \<Rightarrow> string \<Rightarrow> Request" where
  "example_request p q =
     \<lparr>req_method = ''POST'', pathname = p, search = q, protocol = ''http:'',
      req_headers = headers_set (headers_set no_headers ''Accept'' ''*/*'') ''X-Forwarded-For'' ''10.0.0.7'',
      req_body = Some ''payload''\<rparr>"

definition example_probe :: "string \<Rightarrow> int \<times> int \<times> fetch_answer" where
  "example_probe n =
     (if n = ''a'' then (7000, 12000, Rejected (DOMException ''TimeoutError'' ''The operation timed out.''))
      else (7000, 7012, Fulfilled (example_response 200)))"

definition example_arrival :: "event list" where
  "example_arrival = [Run 0 2000, Run 1 2000, Run 2 2001, Run 0 2001]"

definition example_aftermath :: "event list" where
  "example_aftermath =
     [Pm2Answer 1 (Some (JsError ''spawn failed'')) 2500, Run 0 2501, Run 1 2501, Run 2 2501,
      Run 0 3501, Run 2 3501]"

section \<open>Lookups after a mutation\<close>

lemma split_nonempty: "split c s \<noteq> []"
  by (induction s) (auto split: list.split)

lemma find_map_name:
  assumes "\<And>s. name (f s) = name s"
  shows "find (\<lambda>s. name s = m) (map (\<lambda>s. if name s = n then f s else s) xs)
         = map_option (\<lambda>s. if name s = n then f s else s) (find (\<lambda>s. name s = m) xs)"
  using assms by (induction xs) auto

lemma getService_mutate:
  assumes "\<And>s. name (f s) = name s"
  shows "getService (mutate n f pm) m
         = map_option (\<lambda>s. if name s = n then f s else s) (getService pm m)"
  using find_map_name [OF assms] by (simp add: getService_def mutate_def)

lemma getService_pm2_issue [simp]: "getService (pm2_issue c pm) m = getService pm m"
  by (simp add: getService_def pm2_issue_def)

lemma getService_name: "getService pm n = Some s \<Longrightarrow> name s = n"
  by (auto simp: getService_def dest: find_Some_iff [THEN iffD1])

section \<open>Service registry\<close>

text \<open>
  Claim C5. When the instance registered under \<open>n\<close> is \<open>running\<close> or \<open>starting\<close>,
  \<open>startService\<close> returns that instance and leaves the whole manager as it was: no
  field of any instance changes and nothing is handed to the supervisor, whatever the
  supervisor would have answered.
\<close>

theorem startService_already_running:
  assumes "getService pm n = Some service"
    and "status service = Running \<or> status service = Starting"
  shows "startService answer now n pm = (Inr (Some service), pm)"
  using assms by (auto simp: startService_def startService_begin_def)

theorem startService_already_running_witness:
  "startService (Some (JsError ''spawn failed'')) 5000 ''hello-world''
     (example_manager [example_instance ''hello-world'' Starting])
   = (Inr (Some (example_instance ''hello-world'' Starting)),
      example_manager [example_instance ''hello-world'' Starting])"
  by (rule startService_already_running [where service = "example_instance ''hello-world'' Starting"])
     (simp_all add: getService_def example_manager_def example_instance_def)

text \<open>
  Claim C6. When the instance registered under \<open>n\<close> is \<open>stopped\<close> or \<open>stopping\<close>,
  \<open>stopService\<close> returns normally and leaves the whole manager as it was: the
  instance is unchanged and neither \<open>pm2.stop\<close> nor \<open>pm2.delete\<close> is called.
\<close>

theorem stopService_already_stopped:
  assumes "getService pm n = Some service"
    and "status service = Stopped \<or> status service = Stopping"
  shows "stopService stop_answer delete_answer n pm = (Inr (), pm)"
  using assms by (auto simp: stopService_def)

theorem stopService_already_stopped_witness:
  "stopService None None ''hello-world'' (example_manager [example_instance ''hello-world'' Stopped])
   = (Inr (), example_manager [example_instance ''hello-world'' Stopped])"
  by (rule stopService_already_stopped [where service = "example_instance ''hello-world'' Stopped"])
     (simp_all add: getService_def example_manager_def example_instance_def)

text \<open>
  Claim C7. When the instance registered under \<open>n\<close> is \<open>stopped\<close> or in \<open>error\<close>
  and the supervisor rejects the start command with \<open>e\<close>, \<open>startService\<close> throws
  \<open>e\<close> itself, and the instance afterwards is the one before with status \<open>error\<close> and
  its error counter one higher; the start command was handed to the supervisor once.
\<close>

theorem startService_failure:
  assumes reg: "getService pm n = Some service"
    and st: "status service = Stopped \<or> status service = Error"
  shows "fst (startService (Some e) now n pm) = Inl e
       \<and> getService (snd (startService (Some e) now n pm)) n
           = Some (service\<lparr>status := Error, errorCount := errorCount service + 1\<rparr>)
       \<and> pm2_log (snd (startService (Some e) now n pm))
           = pm2_log pm @ [Pm2Start (make_pm2Config n service)]"
proof -
  have nm: "name service = n"
    using reg by (rule getService_name)
  have run: "startService (Some e) now n pm =
               (Inl e, mutate n (\<lambda>s. s\<lparr>status := Error, errorCount := errorCount s + 1\<rparr>)
                         (pm2_issue (Pm2Start (make_pm2Config n service))
                            (mutate n (\<lambda>s. s\<lparr>status := Starting\<rparr>) pm)))"
    using reg st by (auto simp: startService_def startService_begin_def startService_resume_def)
  show ?thesis
    unfolding run using reg nm
    by (simp add: getService_mutate) (simp add: mutate_def pm2_issue_def)
qed

theorem startService_failure_witness:
  "fst (startService (Some (JsError ''spawn failed'')) 5000 ''hello-world''
          (example_manager [example_instance ''hello-world'' Stopped])) = Inl (JsError ''spawn failed'')
   \<and> getService (snd (startService (Some (JsError ''spawn failed'')) 5000 ''hello-world''
          (example_manager [example_instance ''hello-world'' Stopped]))) ''hello-world''
       = Some ((example_instance ''hello-world'' Stopped)\<lparr>status := Error, errorCount := 1\<rparr>)"
  using startService_failure [of "example_manager [example_instance ''hello-world'' Stopped]"
      "''hello-world''" "example_instance ''hello-world'' Stopped" "JsError ''spawn failed''" 5000]
  by (simp add: getService_def example_manager_def example_instance_def)

lemma less_to_integer:
  "(a < to_integer d) = (if 0 \<le> d then of_int a + 1 \<le> d else of_int a < d)"
  by (auto simp: to_integer_def less_ceiling_iff less_floor_iff)

text \<open>
  Claim C8, as stated, fails for a timeout that is not a whole number: with the clock
  at 11001 and the timeout 10000.5 (both doubles, as is their difference), a running
  instance last active at 1000 has \<open>now - lastActivity = 10001 > 10000.5\<close> and is not
  returned, because the cutoff date is 1000.5 cut to 1000.
\<close>

theorem getInactiveServices_fraction_counterexample:
  "status (example_instance ''a'' Running) = Running
   \<and> real_of_int (11001 - lastActivity (example_instance ''a'' Running)) > 10000.5
   \<and> getInactiveServices Num 11001 (Num 10000.5) (example_manager [example_instance ''a'' Running]) = []"
  by (simp add: getInactiveServices_def getAllServices_def now_minus_def new_Date_def
      date_less_def to_integer_def example_manager_def example_instance_def)

text \<open>
  Claim C8, amended. For every table, clock reading \<open>now\<close> and finite timeout \<open>t\<close>
  whose difference \<open>now - t\<close> the runtime computes exactly (as it does for every whole
  number of milliseconds in the range of dates), \<open>getInactiveServices(t)\<close> returns, in
  table order, exactly the \<open>running\<close> instances whose last activity is before the
  cutoff date \<open>new Date(now - t)\<close>:
  \<^item> nothing, when \<open>now - t\<close> is beyond 8.64e15 either way (the cutoff is an Invalid
    Date);
  \<^item> otherwise the running instances with \<open>now - lastActivity \<ge> t + 1\<close> when
    \<open>t \<le> now\<close>, and with \<open>now - lastActivity > t\<close> when \<open>t > now\<close>;
  \<^item> so for a whole number \<open>t\<close> of milliseconds with \<open>now - t\<close> in the range of
    dates, exactly the running instances with \<open>now - lastActivity > t\<close>.
  No instance in another status is ever returned. (For a timeout that is an infinity or
  \<open>NaN\<close> nothing is returned: \<open>getInactiveServices_not_finite\<close> below.)
\<close>

theorem getInactiveServices_exact:
  assumes exact: "fl (of_int now - t) = Num (of_int now - t)"
  shows "getInactiveServices fl now (Num t) pm =
           (if \<bar>of_int now - t\<bar> > 8640000000000000 then []
            else filter (\<lambda>s. status s = Running
                         \<and> (if t \<le> of_int now then of_int (now - lastActivity s) \<ge> t + 1
                             else of_int (now - lastActivity s) > t))
                   (getAllServices pm))
       \<and> (t = of_int k \<and> \<bar>now - k\<bar> \<le> 8640000000000000 \<longrightarrow>
            getInactiveServices fl now (Num t) pm =
              filter (\<lambda>s. status s = Running \<and> now - lastActivity s > k) (getAllServices pm))"
proof -
  have cut: "new_Date (now_minus fl now (Num t)) =
      (if \<bar>of_int now - t\<bar> > 8640000000000000 then None else Some (to_integer (of_int now - t)))"
    by (simp add: now_minus_def new_Date_def exact)
  have general: "getInactiveServices fl now (Num t) pm =
           (if \<bar>of_int now - t\<bar> > 8640000000000000 then []
            else filter (\<lambda>s. status s = Running
                         \<and> (if t \<le> of_int now then of_int (now - lastActivity s) \<ge> t + 1
                             else of_int (now - lastActivity s) > t))
                   (getAllServices pm))"
  proof (cases "\<bar>of_int now - t\<bar> > 8640000000000000")
    case True
    then show ?thesis
      by (simp add: getInactiveServices_def cut date_less_def)
  next
    case False
    have eq: "(\<lambda>s. status s = Running \<and> lastActivity s < to_integer (of_int now - t))
        = (\<lambda>s. status s = Running
                 \<and> (if t \<le> of_int now then of_int (now - lastActivity s) \<ge> t + 1
                     else of_int (now - lastActivity s) > t))"
      by (intro ext) (auto simp: less_to_integer)
    from False have cutoff: "new_Date (now_minus fl now (Num t)) = Some (to_integer (of_int now - t))"
      by (simp add: cut)
    have "getInactiveServices fl now (Num t) pm =
        filter (\<lambda>s. status s = Running \<and> lastActivity s < to_integer (of_int now - t))
          (getAllServices pm)"
      by (simp only: getInactiveServices_def Let_def cutoff date_less_def option.case)
    then show ?thesis
      unfolding eq using False by (simp only: if_False)
  qed
  have whole: "getInactiveServices fl now (Num t) pm =
              filter (\<lambda>s. status s = Running \<and> now - lastActivity s > k) (getAllServices pm)"
    if t: "t = of_int k" and range: "\<bar>now - k\<bar> \<le> 8640000000000000"
  proof -
    have "\<bar>real_of_int now - t\<bar> = real_of_int \<bar>now - k\<bar>"
      by (simp add: t)
    also have "\<dots> \<le> 8640000000000000"
      using range by linarith
    finally have inside: "\<not> \<bar>of_int now - t\<bar> > 8640000000000000"
      by simp
    have eq: "(\<lambda>s. status s = Running
                 \<and> (if t \<le> of_int now then of_int (now - lastActivity s) \<ge> t + 1
                     else of_int (now - lastActivity s) > t))
        = (\<lambda>s. status s = Running \<and> now - lastActivity s > k)"
      unfolding t by (intro ext) (auto; linarith)
    show ?thesis
      using general inside by (simp only: if_False eq)
  qed
  from general whole show ?thesis by blast
qed

lemma getInactiveServices_not_finite:
  "getInactiveServices fl now PosInfinity pm = []"
  "getInactiveServices fl now NegInfinity pm = []"
  "getInactiveServices fl now NaN pm = []"
  by (simp_all add: getInactiveServices_def now_minus_def new_Date_def date_less_def)

theorem getInactiveServices_exact_witness:
  "getInactiveServices Num 1500 (Num 400)
       (example_manager [example_instance ''a'' Running, example_instance ''b'' Stopped])
     = [example_instance ''a'' Running]
   \<and> getInactiveServices Num 1500 (Num 500)
       (example_manager [example_instance ''a'' Running, example_instance ''b'' Stopped])
     = []
   \<and> getInactiveServices Num 1500 (Num 499.5)
       (example_manager [example_instance ''a'' Running, example_instance ''b'' Stopped])
     = []"
proof -
  let ?pm = "example_manager [example_instance ''a'' Running, example_instance ''b'' Stopped]"
  have a: "getInactiveServices Num 1500 (Num 400) ?pm = [example_instance ''a'' Running]"
    using getInactiveServices_exact [of Num 1500 400 ?pm 400]
    by (simp add: getAllServices_def example_manager_def example_instance_def)
  have b: "getInactiveServices Num 1500 (Num 500) ?pm = []"
    using getInactiveServices_exact [of Num 1500 500 ?pm 500]
    by (simp add: getAllServices_def example_manager_def example_instance_def)
  have c: "getInactiveServices Num 1500 (Num 499.5) ?pm = []"
    using getInactiveServices_exact [of Num 1500 "499.5" ?pm 0]
    by (simp add: getAllServices_def example_manager_def example_instance_def)
  from a b c show ?thesis by simp
qed

section \<open>Router\<close>







lemma get_instance_None:
  "get_instance g n = None \<longleftrightarrow> getService (table g) n = None \<and> find_stranger g n = None"
  by (simp add: get_instance_def split: option.split)

lemma find_snoc:
  "find P (xs @ [x]) = (case find P xs of None \<Rightarrow> (if P x then Some x else None) | Some y \<Rightarrow> Some y)"
  by (induction xs) auto

lemma register_stranger_fresh:
  assumes "get_instance g n = None"
  shows "get_instance (register_stranger now n g) n =
           Some (Strange \<lparr>stranger_name = n, stranger_status = Stopped, stranger_lastActivity = now,
                          stranger_requestCount = 0, stranger_errorCount = 0\<rparr>)"
  using assms
  by (simp add: register_stranger_def get_instance_None)
     (simp add: get_instance_def find_stranger_def find_snoc)

text \<open>
  A request for a name that has no instance and no configuration entry gets \<open>null\<close>
  from \<open>ensureServiceRunning\<close>: at once when the lookup finds nothing, and after a
  stranger has been registered and has failed to start when the lookup finds an
  inherited member.
\<close>

lemma ensure_unconfigured:
  assumes "get_instance g n = None"
    and "config_services cfg n = None"
  shows "fst (ensureServiceRunning cfg e n g) = None"
proof (cases "n = ''.well-known'' \<or> n = ''favicon.ico''")
  case True
  then show ?thesis by (auto simp: ensureServiceRunning_def)
next
  case False
  show ?thesis
  proof (cases "n \<in> set object_prototype_names")
    case False
    with assms \<open>\<not> (n = ''.well-known'' \<or> n = ''favicon.ico'')\<close> show ?thesis
      by (simp add: ensureServiceRunning_def services_lookup_def)
  next
    case True
    let ?g1 = "register_stranger (t_register e) n g"
    have look: "services_lookup cfg n = Inherited"
      using assms(2) True by (simp add: services_lookup_def)
    obtain g2 where start: "start_instance (start_answer e) (t_started e) n ?g1 = (Inl command_undefined, g2)"
      by (simp add: start_instance_def start_instance_begin_def register_stranger_fresh [OF assms(1)])
    show ?thesis
      using assms(1) \<open>\<not> (n = ''.well-known'' \<or> n = ''favicon.ico'')\<close>
      by (simp add: ensureServiceRunning_def look register_stranger_fresh [OF assms(1)] start)
  qed
qed

text \<open>
  Claim C1, as stated, fails: a request for \<open>/nosuch/foo\<close>, with no instance and no
  configuration entry named \<open>nosuch\<close>, is answered with status 503, not 404.
\<close>

theorem unconfigured_counterexample:
  "path_segments (pathname (example_request ''/nosuch/foo'' [])) = [''nosuch'', ''foo'']
   \<and> get_instance (example_gateway []) ''nosuch'' = None
   \<and> config_services (example_config [''hello-world'']) ''nosuch'' = None
   \<and> resp_status (fst (handleRequest (example_config [''hello-world''])
          (example_env None (Fulfilled (example_response 200)))
          (example_request ''/nosuch/foo'' []) (example_gateway []))) = 503"
  by (simp add: handleRequest_def ensureServiceRunning_def path_segments_def
      get_instance_def find_stranger_def getService_def services_lookup_def
      object_prototype_names_def example_gateway_def example_manager_def example_config_def
      example_request_def error_response_def)

text \<open>
  Claim C1, amended. For every request whose first non-empty path segment names a
  service that has no instance and no entry in the configuration's service map, the
  router answers with status 503 and the body \<open>{"error":"Service unavailable"}\<close>, not
  with 404.
\<close>

theorem unconfigured_unavailable:
  assumes "path_segments (pathname request) = serviceName # rest"
    and "get_instance g serviceName = None"
    and "config_services cfg serviceName = None"
  shows "fst (handleRequest cfg e request g) = error_response 503 ''Service unavailable''"
proof -
  obtain g1 where "ensureServiceRunning cfg e serviceName g = (None, g1)"
    using ensure_unconfigured [OF assms(2,3), of e]
    by (cases "ensureServiceRunning cfg e serviceName g") auto
  with assms(1) show ?thesis
    by (simp add: handleRequest_def)
qed

theorem unconfigured_unavailable_witness:
  "fst (handleRequest (example_config [''hello-world''])
          (example_env None (Fulfilled (example_response 200)))
          (example_request ''/nosuch/foo'' []) (example_gateway []))
     = error_response 503 ''Service unavailable''
   \<and> fst (handleRequest (example_config [''hello-world''])
          (example_env None (Fulfilled (example_response 200)))
          (example_request ''/constructor/foo'' []) (example_gateway []))
     = error_response 503 ''Service unavailable''"
proof -
  have none: "get_instance (example_gateway []) n = None" for n
    by (simp add: get_instance_def find_stranger_def getService_def example_gateway_def
        example_manager_def)
  have a: "fst (handleRequest (example_config [''hello-world''])
          (example_env None (Fulfilled (example_response 200)))
          (example_request ''/nosuch/foo'' []) (example_gateway []))
     = error_response 503 ''Service unavailable''"
    by (rule unconfigured_unavailable [where serviceName = "''nosuch''" and rest = "[''foo'']"])
       (simp_all add: none path_segments_def example_config_def example_request_def)
  have b: "fst (handleRequest (example_config [''hello-world''])
          (example_env None (Fulfilled (example_response 200)))
          (example_request ''/constructor/foo'' []) (example_gateway []))
     = error_response 503 ''Service unavailable''"
    by (rule unconfigured_unavailable [where serviceName = "''constructor''" and rest = "[''foo'']"])
       (simp_all add: none path_segments_def example_config_def example_request_def)
  from a b show ?thesis by simp
qed

text \<open>
  What such a request leaves behind depends on the name: nothing for \<open>nosuch\<close>; for
  \<open>constructor\<close>, which the lookup finds as an inherited member, a stranger in status
  \<open>error\<close> with one error counted, and nothing handed to pm2.
\<close>

lemma nosuch_leaves_nothing:
  "fst (snd (handleRequest (example_config [''hello-world''])
          (example_env None (Fulfilled (example_response 200)))
          (example_request ''/nosuch/foo'' []) (example_gateway []))) = example_gateway []"
  by (simp add: handleRequest_def ensureServiceRunning_def path_segments_def
      get_instance_def find_stranger_def getService_def services_lookup_def
      object_prototype_names_def example_gateway_def example_manager_def example_config_def
      example_request_def)

lemma constructor_leaves_stranger:
  "fst (snd (handleRequest (example_config [''hello-world''])
          (example_env None (Fulfilled (example_response 200)))
          (example_request ''/constructor/foo'' []) (example_gateway [])))
   = \<lparr>table = example_manager [],
      strangers = [\<lparr>stranger_name = ''constructor'', stranger_status = Error,
                    stranger_lastActivity = 2000, stranger_requestCount = 0,
                    stranger_errorCount = 1\<rparr>]\<rparr>"
  by (simp add: handleRequest_def ensureServiceRunning_def path_segments_def
      get_instance_def find_stranger_def getService_def services_lookup_def
      object_prototype_names_def example_gateway_def example_manager_def example_config_def
      example_request_def example_env_def register_stranger_def start_instance_def
      start_instance_begin_def mutate_stranger_def)

text \<open>
  Claim C10. For every request whose first path segment is exactly \<open>.well-known\<close> or
  \<open>favicon.ico\<close>, the router answers 503 \<open>Service unavailable\<close> and returns the
  process manager as it was (nothing registered, nothing handed to the supervisor),
  with no outbound request, for every configuration and every table: also when the
  configuration has a service of that name.
\<close>

theorem ignored_names_unavailable:
  assumes "path_segments (pathname request) = serviceName # rest"
    and "serviceName = ''.well-known'' \<or> serviceName = ''favicon.ico''"
  shows "handleRequest cfg e request pm = (error_response 503 ''Service unavailable'', pm, None)"
  using assms by (auto simp: handleRequest_def ensureServiceRunning_def)

theorem ignored_names_unavailable_witness:
  "config_services (example_config [''favicon.ico'']) ''favicon.ico'' = Some example_service_config
   \<and> handleRequest (example_config [''favicon.ico''])
          (example_env None (Fulfilled (example_response 200)))
          (example_request ''/favicon.ico'' []) (example_gateway [])
      = (error_response 503 ''Service unavailable'', example_gateway [], None)"
  using ignored_names_unavailable [of "example_request ''/favicon.ico'' []" "''favicon.ico''" "[]"
      "example_config [''favicon.ico'']" "example_env None (Fulfilled (example_response 200))"
      "example_gateway []"]
  by (simp add: path_segments_def example_request_def example_config_def)

text \<open>
  A path made of non-empty segments without a slash, each after a slash, has exactly
  these segments.
\<close>

lemma split_no_separator: "c \<notin> set w \<Longrightarrow> split c w = [w]"
  by (induction w) auto

lemma split_segment: "c \<notin> set w \<Longrightarrow> split c (w @ c # s) = w # split c s"
  by (induction w) auto

lemma split_join_Cons:
  assumes "\<forall>v \<in> set (w # ws). c \<notin> set v"
  shows "split c (join [c] (w # ws)) = w # ws"
  using assms
proof (induction ws arbitrary: w)
  case Nil
  then show ?case by (simp add: split_no_separator)
next
  case (Cons v vs)
  then have "split c (join [c] (v # vs)) = v # vs"
    by simp
  moreover have "c \<notin> set w"
    using Cons.prems by simp
  ultimately show ?case
    by (simp add: split_segment)
qed

lemma split_join:
  assumes "ws \<noteq> []" and "\<forall>w \<in> set ws. c \<notin> set w"
  shows "split c (join [c] ws) = ws"
  using assms split_join_Cons [of _ _ c] by (cases ws) auto

lemma path_segments_join:
  assumes "ws \<noteq> []" and "\<forall>w \<in> set ws. w \<noteq> [] \<and> CHR ''/'' \<notin> set w"
  shows "path_segments (''/'' @ join ''/'' ws) = ws"
proof -
  have "split CHR ''/'' (join ''/'' ws) = ws"
    using assms by (intro split_join) auto
  moreover have "filter (\<lambda>w. w \<noteq> []) ws = ws"
    using assms(2) by (simp add: filter_id_conv)
  ultimately show ?thesis
    by (simp add: path_segments_def)
qed



section \<open>Health checks\<close>

lemma toString_304: "toString 304 = ''304''"
  by code_simp

text \<open>
  Claim C2, as stated, fails: a probe of a running service whose request ends with the
  status 304 (a 3xx that \<open>fetch\<close> does not follow) gives \<open>unhealthy\<close> with the detail
  \<open>HTTP 304\<close>, not \<open>healthy\<close>.
\<close>

theorem healthCheck_redirect_counterexample:
  "getService (example_manager [example_instance ''hello-world'' Running]) ''hello-world''
     = Some (example_instance ''hello-world'' Running)
   \<and> status (example_instance ''hello-world'' Running) = Running
   \<and> healthCheck 7000 7012 (Fulfilled (example_response 304)) ''hello-world''
        (example_manager [example_instance ''hello-world'' Running])
     = \<lparr>hc_status = Unhealthy, responseTime = 12, hc_error = Some ''HTTP 304''\<rparr>"
  by (simp add: healthCheck_def getService_def example_manager_def example_instance_def
      example_response_def ok_def toString_304)

text \<open>
  Claim C2, amended. For every probe of a running service, where the response is the
  one that \<open>fetch\<close> resolves with after following redirects: a response with a status
  from 200 to 299 gives \<open>healthy\<close> with no detail (so a service that redirects the
  probe to a page answering 2xx is healthy); a response with any other status (a 3xx
  that was not followed included) gives \<open>unhealthy\<close> with the detail \<open>HTTP\<close> and the
  status code; a rejection with the \<open>DOMException\<close> named \<open>TimeoutError\<close>, which is
  how the five second limit ends the request, gives \<open>timeout\<close>; every other rejection
  (a refused or reset connection) gives \<open>unhealthy\<close>; the detail of a rejection is its
  message.
\<close>

theorem healthCheck_classifies:
  assumes "getService pm n = Some service"
    and "status service = Running"
  shows "healthCheck t0 t1 answer n pm =
           (case answer of
              Fulfilled response \<Rightarrow>
                if 200 \<le> resp_status response \<and> resp_status response < 300
                then \<lparr>hc_status = Healthy, responseTime = t1 - t0, hc_error = None\<rparr>
                else \<lparr>hc_status = Unhealthy, responseTime = t1 - t0,
                       hc_error = Some (''HTTP '' @ toString (resp_status response))\<rparr>
            | Rejected (DOMException nm msg) \<Rightarrow>
                if nm = ''TimeoutError''
                then \<lparr>hc_status = Timeout, responseTime = t1 - t0, hc_error = Some msg\<rparr>
                else \<lparr>hc_status = Unhealthy, responseTime = t1 - t0, hc_error = Some msg\<rparr>
            | Rejected (JsError msg) \<Rightarrow>
                \<lparr>hc_status = Unhealthy, responseTime = t1 - t0, hc_error = Some msg\<rparr>
            | Rejected (NonError str) \<Rightarrow>
                \<lparr>hc_status = Unhealthy, responseTime = t1 - t0, hc_error = Some str\<rparr>)"
  using assms
  by (auto simp: healthCheck_def ok_def split: fetch_answer.split thrown.split)

theorem healthCheck_classifies_witness:
  "healthCheck 7000 7012 (Fulfilled (example_response 204)) ''hello-world''
        (example_manager [example_instance ''hello-world'' Running])
     = \<lparr>hc_status = Healthy, responseTime = 12, hc_error = None\<rparr>
   \<and> healthCheck 7000 12000 (Rejected (DOMException ''TimeoutError'' ''The operation timed out.'')) ''hello-world''
        (example_manager [example_instance ''hello-world'' Running])
     = \<lparr>hc_status = Timeout, responseTime = 5000, hc_error = Some ''The operation timed out.''\<rparr>
   \<and> healthCheck 7000 7001 (Rejected (JsError ''ECONNREFUSED'')) ''hello-world''
        (example_manager [example_instance ''hello-world'' Running])
     = \<lparr>hc_status = Unhealthy, responseTime = 1, hc_error = Some ''ECONNREFUSED''\<rparr>"
proof -
  have reg: "getService (example_manager [example_instance ''hello-world'' Running]) ''hello-world''
     = Some (example_instance ''hello-world'' Running)"
    by (simp add: getService_def example_manager_def example_instance_def)
  have st: "status (example_instance ''hello-world'' Running) = Running"
    by (simp add: example_instance_def)
  show ?thesis
    by (simp add: healthCheck_classifies [OF reg st] example_response_def)
qed

text \<open>
  Claim C9. \<open>healthCheck\<close> only reads the table and returns a result. After the
  health loop of the activity monitor, whatever the probes gave, the table has the same
  instances in the same order and the supervisor was not called; every instance has
  the status it had and differs from before in its error counter only; that counter is
  one higher when the instance is \<open>running\<close> and its probe is not \<open>healthy\<close> (it is
  still \<open>running\<close> then), and the same otherwise.
\<close>

theorem performHealthChecks_frame:
  "length (services (performHealthChecks probe pm)) = length (services pm)
   \<and> pm2_log (performHealthChecks probe pm) = pm2_log pm
   \<and> (\<forall>i < length (services pm).
        status (services (performHealthChecks probe pm) ! i) = status (services pm ! i)
        \<and> services (performHealthChecks probe pm) ! i
            = (services pm ! i)\<lparr>errorCount := errorCount (services (performHealthChecks probe pm) ! i)\<rparr>
        \<and> errorCount (services (performHealthChecks probe pm) ! i)
            = (if status (services pm ! i) = Running
                  \<and> hc_status (checked probe pm (services pm ! i)) \<noteq> Healthy
               then errorCount (services pm ! i) + 1
               else errorCount (services pm ! i)))"
  by (simp add: performHealthChecks_def getAllServices_def)

theorem performHealthChecks_frame_witness:
  "hc_status (checked example_probe
       (example_manager [example_instance ''a'' Running, example_instance ''b'' Running])
       (example_instance ''a'' Running)) = Timeout
   \<and> status (services (performHealthChecks example_probe
       (example_manager [example_instance ''a'' Running, example_instance ''b'' Running])) ! 0) = Running
   \<and> errorCount (services (performHealthChecks example_probe
       (example_manager [example_instance ''a'' Running, example_instance ''b'' Running])) ! 0) = 1
   \<and> errorCount (services (performHealthChecks example_probe
       (example_manager [example_instance ''a'' Running, example_instance ''b'' Running])) ! 1) = 0"
proof -
  let ?pm = "example_manager [example_instance ''a'' Running, example_instance ''b'' Running]"
  have chk_a: "hc_status (checked example_probe ?pm (example_instance ''a'' Running)) = Timeout"
    by (simp add: checked_def example_probe_def healthCheck_def getService_def
        example_manager_def example_instance_def)
  have chk_b: "hc_status (checked example_probe ?pm (example_instance ''b'' Running)) = Healthy"
    by (simp add: checked_def example_probe_def healthCheck_def getService_def
        example_manager_def example_instance_def example_response_def ok_def)
  have frame: "\<forall>i < length (services ?pm).
        status (services (performHealthChecks example_probe ?pm) ! i) = status (services ?pm ! i)
        \<and> services (performHealthChecks example_probe ?pm) ! i
            = (services ?pm ! i)\<lparr>errorCount := errorCount (services (performHealthChecks example_probe ?pm) ! i)\<rparr>
        \<and> errorCount (services (performHealthChecks example_probe ?pm) ! i)
            = (if status (services ?pm ! i) = Running
                  \<and> hc_status (checked example_probe ?pm (services ?pm ! i)) \<noteq> Healthy
               then errorCount (services ?pm ! i) + 1
               else errorCount (services ?pm ! i))"
    using performHealthChecks_frame [of example_probe ?pm] by blast
  have svc: "services ?pm = [example_instance ''a'' Running, example_instance ''b'' Running]"
    by (simp add: example_manager_def)
  have f0: "status (services (performHealthChecks example_probe ?pm) ! 0) = Running
      \<and> errorCount (services (performHealthChecks example_probe ?pm) ! 0) = 1"
    using frame [rule_format, of 0] chk_a by (simp add: svc) (simp add: example_instance_def)
  have f1: "errorCount (services (performHealthChecks example_probe ?pm) ! 1) = 0"
    using frame [rule_format, of 1] chk_b by (simp add: svc) (simp add: example_instance_def)
  show ?thesis
    using chk_a f0 f1 by simp
qed

section \<open>Concurrent requests for one service\<close>

lemma getService_registerService:
  "getService pm n = None \<Longrightarrow>
   map_option status (getService (registerService now n sc pm) n) = Some Stopped"
  by (simp add: registerService_def getService_def find_snoc)

lemma pm2_log_mutate [simp]: "pm2_log (mutate m f pm) = pm2_log pm"
  by (simp add: mutate_def)

lemma starts_mutate [simp]: "starts n (mutate m f pm) = starts n pm"
  by (simp add: starts_def)

lemma starts_registerService [simp]: "starts n (registerService now m sc pm) = starts n pm"
  by (simp add: starts_def registerService_def)

lemma starts_issue [simp]:
  "starts n (pm2_issue (Pm2Start (make_pm2Config n s)) pm) = starts n pm + 1"
  by (simp add: starts_def pm2_issue_def make_pm2Config_def)

lemma status_mutate:
  assumes "\<And>s. name (f s) = name s"
  shows "map_option status (getService (mutate n f pm) n)
         = map_option (\<lambda>s. status (f s)) (getService pm n)"
proof (cases "getService pm n")
  case None
  then show ?thesis by (simp add: getService_mutate [OF assms])
next
  case (Some s)
  then show ?thesis
    using getService_name [OF Some] by (simp add: getService_mutate [OF assms])
qed

lemma count_update:
  "i < length xs \<Longrightarrow>
   length (filter P (xs[i := y])) + (if P (xs ! i) then 1 else 0)
     = length (filter P xs) + (if P y then 1 else 0)"
proof (induction xs arbitrary: i)
  case Nil
  then show ?case by simp
next
  case (Cons x xs)
  show ?case
  proof (cases i)
    case 0
    then show ?thesis by simp
  next
    case (Suc j)
    with Cons.prems have "j < length xs" by simp
    from Cons.IH [OF this] Suc show ?thesis by simp
  qed
qed

lemma in_flight_update:
  assumes "i < length (tasks sys)"
  shows "in_flight \<lparr>gateway = g, tasks = (tasks sys)[i := p]\<rparr>
           + (if tasks sys ! i = AwaitStart then 1 else 0)
         = in_flight sys + (if p = AwaitStart then 1 else 0)"
  using count_update [OF assms, of "\<lambda>p. p = AwaitStart" p] by (simp add: in_flight_def)

lemma manager_simp [simp]: "manager \<lparr>gateway = g, tasks = ps\<rparr> = table g"
  by (simp add: manager_def)

lemma table_mutate_stranger [simp]: "table (mutate_stranger n f g) = table g"
  by (simp add: mutate_stranger_def)

text \<open>
  What one piece of a handler does to the table of well-typed instances, seen through
  the status of the instance \<open>n\<close> and the number of start commands, and to the
  strangers.
\<close>

lemma start_typed_effect:
  assumes reg: "getService pm n = Some s"
    and cold: "status s \<noteq> Running" "status s \<noteq> Starting"
  shows "\<exists>pm'. startService_begin n pm = (Inr (), pm')
           \<and> map_option status (getService pm' n) = Some Starting
           \<and> starts n pm' = starts n pm + 1"
proof -
  have "startService_begin n pm =
      (Inr (), pm2_issue (Pm2Start (make_pm2Config n s)) (mutate n (\<lambda>s. s\<lparr>status := Starting\<rparr>) pm))"
    using reg cold by (simp add: startService_begin_def)
  moreover have "map_option status (getService
      (pm2_issue (Pm2Start (make_pm2Config n s)) (mutate n (\<lambda>s. s\<lparr>status := Starting\<rparr>) pm)) n)
      = Some Starting"
    using reg by (simp add: status_mutate)
  ultimately show ?thesis by simp
qed

lemma call_start_effect:
  assumes "call_start n (get_instance g n) g = (p', g')"
  shows "(p' = AwaitStart
            \<and> map_option status (getService (table g) n) \<notin> {None, Some Running, Some Starting}
            \<and> map_option status (getService (table g') n) = Some Starting
            \<and> starts n (table g') = starts n (table g) + 1
            \<and> strangers g' = strangers g)
       \<or> (p' \<noteq> AwaitStart \<and> passed p' \<and> table g' = table g
            \<and> map_option status (getService (table g) n) \<in> {None, Some Running, Some Starting}
            \<and> (find_stranger g n = None \<longrightarrow> g' = g)
            \<and> (map_option status (getService (table g) n) = None \<and> find_stranger g n = None
                 \<longrightarrow> p' = Finished None))"
proof (cases "getService (table g) n")
  case None
  note untyped = this
  show ?thesis
  proof (cases "find_stranger g n")
    case None
    with untyped assms show ?thesis
      by (auto simp: call_start_def get_instance_def)
  next
    case (Some x)
    then have inst: "get_instance g n = Some (Strange x)"
      using untyped by (simp add: get_instance_def)
    from assms untyped Some show ?thesis
      unfolding inst
      by (auto simp: call_start_def start_instance_begin_def inst split: if_splits)
  qed
next
  case (Some s)
  then have inst: "get_instance g n = Some (Typed s)"
    by (simp add: get_instance_def)
  show ?thesis
  proof (cases "status s = Running \<or> status s = Starting")
    case True
    with assms Some show ?thesis
      unfolding inst
      by (auto simp: call_start_def start_instance_begin_def inst startService_begin_def)
  next
    case False
    then obtain pm' where beg: "startService_begin n (table g) = (Inr (), pm')"
      and st: "map_option status (getService pm' n) = Some Starting"
      and k: "starts n pm' = starts n (table g) + 1"
      using start_typed_effect [OF Some] by blast
    from assms False have "p' = AwaitStart" and "g' = g\<lparr>table := pm'\<rparr>"
      unfolding inst by (auto simp: call_start_def start_instance_begin_def inst beg)
    with st k False Some show ?thesis by auto
  qed
qed

lemma register_entry_effect:
  assumes "get_instance g n = None"
  shows "map_option status (getService (table (register_entry now n sc g)) n) = Some Stopped
       \<and> starts n (table (register_entry now n sc g)) = starts n (table g)
       \<and> strangers (register_entry now n sc g) = strangers g"
  using assms getService_registerService [of "table g" n now sc]
  by (simp add: register_entry_def get_instance_None)

lemma register_stranger_table [simp]: "table (register_stranger now n g) = table g"
  by (simp add: register_stranger_def)

lemma run_task_effect:
  assumes "run_task cfg n now p g = (p', g')"
  shows "(\<not> passed p \<and> p' = AwaitStart
            \<and> map_option status (getService (table g) n) \<notin> {None, Some Running, Some Starting}
            \<and> map_option status (getService (table g') n) = Some Starting
            \<and> starts n (table g') = starts n (table g) + 1
            \<and> strangers g' = strangers g)
       \<or> (p = Entry \<and> p' = Registered
            \<and> map_option status (getService (table g) n) = None
            \<and> map_option status (getService (table g') n) = Some Stopped
            \<and> starts n (table g') = starts n (table g)
            \<and> strangers g' = strangers g)
       \<or> (p = Entry \<and> p' = Registered \<and> table g' = table g \<and> config_services cfg n = None)
       \<or> (table g' = table g \<and> (p' = AwaitStart \<longleftrightarrow> p = AwaitStart) \<and> passed p'
            \<and> (find_stranger g n = None \<longrightarrow> g' = g)
            \<and> (\<not> passed p \<longrightarrow>
                  ignored n
                  \<or> map_option status (getService (table g) n) = Some Starting
                  \<or> map_option status (getService (table g) n) = Some Running
                  \<or> map_option status (getService (table g) n) = None
                     \<and> (p = Registered \<or> config_services cfg n = None
                         \<or> find_stranger g n \<noteq> None)))"
proof (cases p)
  case Entry
  show ?thesis
  proof (cases "ignored n")
    case True
    with assms Entry show ?thesis by (auto simp: run_task_def ignored_def)
  next
    case False
    note not_ignored = this
    show ?thesis
    proof (cases "get_instance g n")
      case None
      note unreg = this
      show ?thesis
      proof (cases "services_lookup cfg n")
        case Undefined
        then have "config_services cfg n = None"
          by (auto simp: services_lookup_def split: option.splits if_splits)
        moreover from assms Entry unreg not_ignored Undefined
        have "p' = Finished None" and "g' = g"
          by (auto simp: run_task_def ignored_def)
        moreover from unreg have "getService (table g) n = None"
          by (simp add: get_instance_None)
        ultimately show ?thesis
          using Entry by simp
      next
        case (Own sc)
        with assms Entry unreg not_ignored
        have "p' = Registered" and "g' = register_entry now n sc g"
          by (auto simp: run_task_def ignored_def)
        then show ?thesis
          using Entry unreg register_entry_effect [OF unreg, of now sc]
          by (simp add: get_instance_None)
      next
        case Inherited
        then have "config_services cfg n = None"
          by (auto simp: services_lookup_def split: option.splits if_splits)
        moreover from assms Entry unreg not_ignored Inherited
        have "p' = Registered" and "g' = register_stranger now n g"
          by (auto simp: run_task_def ignored_def)
        ultimately show ?thesis
          using Entry by simp
      qed
    next
      case (Some sl)
      with assms Entry not_ignored have cs: "call_start n (get_instance g n) g = (p', g')"
        by (auto simp: run_task_def ignored_def)
      have strange: "find_stranger g n \<noteq> None"
        if "map_option status (getService (table g) n) = None"
        using Some that by (auto simp: get_instance_def split: option.splits)
      from call_start_effect [OF cs] show ?thesis
      proof (elim disjE)
        assume "p' = AwaitStart
            \<and> map_option status (getService (table g) n) \<notin> {None, Some Running, Some Starting}
            \<and> map_option status (getService (table g') n) = Some Starting
            \<and> starts n (table g') = starts n (table g) + 1
            \<and> strangers g' = strangers g"
        then show ?thesis
          using Entry by simp
      next
        assume idle: "p' \<noteq> AwaitStart \<and> passed p' \<and> table g' = table g
            \<and> map_option status (getService (table g) n) \<in> {None, Some Running, Some Starting}
            \<and> (find_stranger g n = None \<longrightarrow> g' = g)
            \<and> (map_option status (getService (table g) n) = None \<and> find_stranger g n = None
                 \<longrightarrow> p' = Finished None)"
        then have "map_option status (getService (table g) n) = Some Starting
            \<or> map_option status (getService (table g) n) = Some Running
            \<or> map_option status (getService (table g) n) = None \<and> find_stranger g n \<noteq> None"
          using strange by auto
        with idle show ?thesis
          using Entry by auto
      qed
    qed
  qed
next
  case Registered
  with assms have "call_start n (get_instance g n) g = (p', g')"
    by (simp add: run_task_def)
  from call_start_effect [OF this] Registered show ?thesis
    by auto
next
  case AwaitStart
  with assms show ?thesis by (auto simp: run_task_def)
next
  case (StartSettled r)
  with assms show ?thesis by (cases r) (auto simp: run_task_def)
next
  case Settling
  with assms show ?thesis by (auto simp: run_task_def)
next
  case (Finished r)
  with assms show ?thesis by (auto simp: run_task_def)
qed

lemma resume_effect:
  "table (snd (start_instance_resume answer now n g)) = snd (startService_resume answer now n (table g))
   \<and> strangers (snd (start_instance_resume answer now n g)) = strangers g"
  by (simp add: start_instance_resume_def split: prod.split sum.split)

lemma step_no_overlap:
  assumes "no_overlap n sys"
  shows "no_overlap n (step cfg n ev sys)"
proof (cases ev)
  case (Run i now)
  show ?thesis
  proof (cases "i < length (tasks sys)")
    case False
    with Run assms show ?thesis by simp
  next
    case True
    obtain p' g' where rt: "run_task cfg n now (tasks sys ! i) (gateway sys) = (p', g')"
      by (cases "run_task cfg n now (tasks sys ! i) (gateway sys)")
    have st: "step cfg n ev sys = \<lparr>gateway = g', tasks = (tasks sys)[i := p']\<rparr>"
      using Run True rt by simp
    note upd = in_flight_update [OF True, of g' p']
    from run_task_effect [OF rt] show ?thesis
      unfolding st using assms upd
      by (auto simp: no_overlap_def manager_def split: if_splits)
  qed
next
  case (Pm2Answer i answer now)
  show ?thesis
  proof (cases "i < length (tasks sys) \<and> tasks sys ! i = AwaitStart")
    case False
    with Pm2Answer assms show ?thesis by auto
  next
    case True
    obtain r g' where rs: "start_instance_resume answer now n (gateway sys) = (r, g')"
      by (cases "start_instance_resume answer now n (gateway sys)")
    have st: "step cfg n ev sys =
        \<lparr>gateway = g', tasks = (tasks sys)[i := StartSettled (case r of Inl e \<Rightarrow> Inl e | Inr s \<Rightarrow> Inr ())]\<rparr>"
      using Pm2Answer True rs by simp
    from True have len: "i < length (tasks sys)" by simp
    note upd = in_flight_update [OF len, of g' "StartSettled (case r of Inl e \<Rightarrow> Inl e | Inr s \<Rightarrow> Inr ())"]
    show ?thesis
      unfolding st using assms upd True
      by (auto simp: no_overlap_def split: if_splits)
  qed
qed

lemma run_no_overlap: "no_overlap n sys \<Longrightarrow> no_overlap n (run cfg n evs sys)"
  by (induction evs arbitrary: sys) (simp_all add: step_no_overlap)

lemma arrivals_no_overlap: "no_overlap n (arrivals N pm)"
  by (simp add: no_overlap_def arrivals_def in_flight_def)

lemma status_resume_ok:
  "map_option status (getService (snd (startService_resume None now n pm)) n)
     = map_option (\<lambda>s. Running) (getService pm n)"
  by (simp add: startService_resume_def Let_def status_mutate)

lemma starts_resume: "starts n (snd (startService_resume answer now m pm)) = starts n pm"
  by (cases answer) (simp_all add: startService_resume_def Let_def)

lemma list_all_update:
  "list_all P xs \<Longrightarrow> P y \<Longrightarrow> list_all P (xs[i := y])"
  using set_update_subset_insert [of xs i y] by (auto simp: list_all_iff)

lemma list_all_weaken:
  "list_all P xs \<Longrightarrow> (\<And>x. P x \<Longrightarrow> Q x) \<Longrightarrow> list_all Q xs"
  by (auto simp: list_all_iff)

lemma step_window:
  assumes ign: "\<not> ignored n"
    and inv: "window_inv cfg n k sys"
    and ev: "no_failure ev"
  shows "window_inv cfg n k (step cfg n ev sys)"
proof -
  from inv have cfgd: "config_services cfg n \<noteq> None"
    and lone: "find_stranger (gateway sys) n = None"
    by (simp_all add: window_inv_def)
  show ?thesis
  proof (cases ev)
    case (Run i now)
    show ?thesis
    proof (cases "i < length (tasks sys)")
      case False
      with Run inv show ?thesis by simp
    next
      case True
      obtain p' g' where rt: "run_task cfg n now (tasks sys ! i) (gateway sys) = (p', g')"
        by (cases "run_task cfg n now (tasks sys ! i) (gateway sys)")
      have st: "step cfg n ev sys = \<lparr>gateway = g', tasks = (tasks sys)[i := p']\<rparr>"
        using Run True rt by simp
      have mem: "tasks sys ! i \<in> set (tasks sys)"
        using True by simp
      have lone': "find_stranger g' n = None"
        using run_task_effect [OF rt] lone cfgd by (auto simp: find_stranger_def)
      show ?thesis
      proof (cases "map_option status (getService (manager sys) n)")
        case None
        with inv have all: "list_all (\<lambda>p. p = Entry) (tasks sys)"
          and k: "starts n (manager sys) = k"
          by (simp_all add: window_inv_def)
        from all mem have pi: "tasks sys ! i = Entry"
          by (simp add: list_all_iff)
        from run_task_effect [OF rt] None pi cfgd ign lone
        have p': "p' = Registered"
          and st': "map_option status (getService (table g') n) = Some Stopped"
          and k': "starts n (table g') = starts n (manager sys)"
          by (auto simp: manager_def)
        have "list_all (\<lambda>p. \<not> passed p) ((tasks sys)[i := p'])"
          using all p' by (intro list_all_update) (auto elim: list_all_weaken)
        then show ?thesis
          unfolding st using st' k k' cfgd lone' by (auto simp: window_inv_def)
      next
        case (Some s)
        with inv consider
          (stopped) "s = Stopped" "list_all (\<lambda>p. \<not> passed p) (tasks sys)" "starts n (manager sys) = k"
          | (started) "s = Starting \<or> s = Running" "starts n (manager sys) = k + 1"
          by (auto simp: window_inv_def)
        then show ?thesis
        proof cases
          case stopped
          from stopped(2) mem have "\<not> passed (tasks sys ! i)"
            by (simp add: list_all_iff)
          with run_task_effect [OF rt] Some stopped(1) ign cfgd
          have "map_option status (getService (table g') n) = Some Starting"
            and "starts n (table g') = starts n (manager sys) + 1"
            by (auto simp: manager_def)
          then show ?thesis
            unfolding st using stopped(3) cfgd lone' by (auto simp: window_inv_def)
        next
          case started
          with run_task_effect [OF rt] Some cfgd have "table g' = manager sys"
            by (auto simp: manager_def)
          then show ?thesis
            unfolding st using started Some cfgd lone' inv
            by (auto simp: window_inv_def manager_def)
        qed
      qed
    qed
  next
    case (Pm2Answer i answer now)
    with ev have ok: "answer = None" by simp
    show ?thesis
    proof (cases "i < length (tasks sys) \<and> tasks sys ! i = AwaitStart")
      case False
      with Pm2Answer inv show ?thesis by auto
    next
      case True
      then have mem: "AwaitStart \<in> set (tasks sys)"
        by (metis nth_mem)
      obtain r g' where rs: "start_instance_resume None now n (gateway sys) = (r, g')"
        by (cases "start_instance_resume None now n (gateway sys)")
      have st: "step cfg n ev sys =
          \<lparr>gateway = g', tasks = (tasks sys)[i := StartSettled (case r of Inl e \<Rightarrow> Inl e | Inr s \<Rightarrow> Inr ())]\<rparr>"
        using Pm2Answer True rs ok by simp
      have tab: "table g' = snd (startService_resume None now n (manager sys))"
        and lone': "find_stranger g' n = None"
        using resume_effect [of None now n "gateway sys"] rs lone
        by (simp_all add: manager_def find_stranger_def)
      have k': "starts n (table g') = starts n (manager sys)"
        unfolding tab by (rule starts_resume)
      have st': "map_option status (getService (table g') n)
          = map_option (\<lambda>s. Running) (getService (manager sys) n)"
        unfolding tab by (rule status_resume_ok)
      from inv mem have "(\<exists>s. getService (manager sys) n = Some s) \<and> starts n (manager sys) = k + 1"
        by (auto simp: window_inv_def list_all_iff split: option.splits)
      then show ?thesis
        unfolding st using st' k' cfgd lone' by (auto simp: window_inv_def)
    qed
  qed
qed

lemma run_window:
  assumes "\<not> ignored n"
  shows "window_inv cfg n k sys \<Longrightarrow> list_all no_failure evs \<Longrightarrow> window_inv cfg n k (run cfg n evs sys)"
  by (induction evs arbitrary: sys) (simp_all add: step_window [OF assms])

lemma window_bound: "window_inv cfg n k sys \<Longrightarrow> starts n (manager sys) \<le> k + 1"
  by (auto simp: window_inv_def split: option.splits)

lemma window_started:
  assumes "window_inv cfg n k sys"
    and "list_all passed (tasks sys)"
    and "tasks sys \<noteq> []"
  shows "starts n (manager sys) = k + 1"
proof -
  from assms(3) obtain p where p: "p \<in> set (tasks sys)"
    by (cases "tasks sys") auto
  with assms(2) have "passed p"
    by (simp add: list_all_iff)
  with assms(1) p show ?thesis
    by (auto simp: window_inv_def list_all_iff split: option.splits)
qed

lemma step_passed:
  assumes "list_all passed (tasks sys)"
  shows "list_all passed (tasks (step cfg n ev sys))
       \<and> starts n (manager (step cfg n ev sys)) = starts n (manager sys)"
proof (cases ev)
  case (Run i now)
  show ?thesis
  proof (cases "i < length (tasks sys)")
    case False
    with Run assms show ?thesis by simp
  next
    case True
    obtain p' g' where rt: "run_task cfg n now (tasks sys ! i) (gateway sys) = (p', g')"
      by (cases "run_task cfg n now (tasks sys ! i) (gateway sys)")
    have st: "step cfg n ev sys = \<lparr>gateway = g', tasks = (tasks sys)[i := p']\<rparr>"
      using Run True rt by simp
    from assms True have "passed (tasks sys ! i)"
      by (simp add: list_all_iff)
    with run_task_effect [OF rt] have "table g' = manager sys" and "passed p'"
      by (auto simp: manager_def)
    then show ?thesis
      unfolding st using assms by (simp add: list_all_update)
  qed
next
  case (Pm2Answer i answer now)
  show ?thesis
  proof (cases "i < length (tasks sys) \<and> tasks sys ! i = AwaitStart")
    case False
    with Pm2Answer assms show ?thesis by auto
  next
    case True
    obtain r g' where rs: "start_instance_resume answer now n (gateway sys) = (r, g')"
      by (cases "start_instance_resume answer now n (gateway sys)")
    have st: "step cfg n ev sys =
        \<lparr>gateway = g', tasks = (tasks sys)[i := StartSettled (case r of Inl e \<Rightarrow> Inl e | Inr s \<Rightarrow> Inr ())]\<rparr>"
      using Pm2Answer True rs by simp
    have "table g' = snd (startService_resume answer now n (manager sys))"
      using resume_effect [of answer now n "gateway sys"] rs by (simp add: manager_def)
    then have "starts n (table g') = starts n (manager sys)"
      by (simp add: starts_resume)
    then show ?thesis
      unfolding st using assms by (simp add: list_all_update)
  qed
qed

lemma run_passed:
  "list_all passed (tasks sys) \<Longrightarrow>
   starts n (manager (run cfg n evs sys)) = starts n (manager sys)"
  by (induction evs arbitrary: sys) (simp_all add: step_passed)

lemma run_append: "run cfg n (evs @ later) sys = run cfg n later (run cfg n evs sys)"
  by (induction evs arbitrary: sys) simp_all

lemma run_length [simp]: "length (tasks (run cfg n evs sys)) = length (tasks sys)"
proof (induction evs arbitrary: sys)
  case Nil
  show ?case by simp
next
  case (Cons ev evs)
  have "length (tasks (step cfg n ev sys)) = length (tasks sys)"
    by (cases ev) (auto split: prod.splits)
  with Cons show ?case by simp
qed

lemma arrivals_window:
  assumes "config_services cfg n \<noteq> None"
    and "getService pm n = None \<or> map_option status (getService pm n) = Some Stopped"
  shows "window_inv cfg n (starts n pm) (arrivals N pm)"
  using assms by (auto simp: window_inv_def arrivals_def list_all_iff find_stranger_def)

text \<open>
  The interleaved model agrees with \<open>ensureServiceRunning\<close>: a request that runs
  alone, resumed at each of its \<open>await\<close>s in turn, ends with the result and the
  \<open>Map\<close> that \<open>ensureServiceRunning\<close> gives.
\<close>

lemma register_entry_fresh:
  assumes "get_instance g n = None"
  shows "\<exists>sv. get_instance (register_entry now n sc g) n = Some (Typed sv)"
  using assms
  by (simp add: register_entry_def get_instance_None)
     (simp add: get_instance_def registerService_def getService_def find_snoc)

lemma alone_registered:
  assumes reg: "get_instance g n = Some sv"
    and ni: "n \<noteq> ''.well-known''" "n \<noteq> ''favicon.ico''"
  shows "run cfg n [Run 0 t0, Run 0 t1, Pm2Answer 0 a ts, Run 0 t2, Run 0 t3]
             \<lparr>gateway = g, tasks = [Entry]\<rparr>
         = (if slot_status sv \<noteq> Running
            then (case start_instance a ts n g of
                    (Inl err, g2) \<Rightarrow> \<lparr>gateway = g2, tasks = [Finished None]\<rparr>
                  | (Inr started, g2) \<Rightarrow> \<lparr>gateway = g2, tasks = [Finished (get_instance g2 n)]\<rparr>)
            else \<lparr>gateway = g, tasks = [Finished (Some sv)]\<rparr>)"
proof (cases sv)
  case (Typed s)
  with reg have typed: "getService (table g) n = Some s"
    by (auto simp: get_instance_def split: option.splits)
  consider (running) "status s = Running" | (starting) "status s = Starting"
    | (cold) "status s \<noteq> Running" "status s \<noteq> Starting"
    by blast
  then show ?thesis
  proof cases
    case running
    with reg Typed ni show ?thesis
      by (simp add: run_task_def call_start_def)
  next
    case starting
    with reg Typed typed ni show ?thesis
      by (simp add: run_task_def call_start_def start_instance_def start_instance_begin_def
          startService_begin_def)
  next
    case cold
    with reg Typed typed ni show ?thesis
      by (cases a)
         (simp_all add: run_task_def call_start_def start_instance_def start_instance_begin_def
            start_instance_resume_def startService_begin_def startService_resume_def Let_def)
  qed
next
  case (Strange x)
  consider (running) "stranger_status x = Running" | (starting) "stranger_status x = Starting"
    | (cold) "stranger_status x \<noteq> Running" "stranger_status x \<noteq> Starting"
    by blast
  then show ?thesis
  proof cases
    case running
    with reg Strange ni show ?thesis
      by (simp add: run_task_def call_start_def)
  next
    case starting
    with reg Strange ni show ?thesis
      by (simp add: run_task_def call_start_def start_instance_def start_instance_begin_def)
  next
    case cold
    with reg Strange ni show ?thesis
      by (simp add: run_task_def call_start_def start_instance_def start_instance_begin_def)
  qed
qed

lemma alone_just_registered:
  assumes reg: "get_instance g n = Some sv"
  shows "run cfg n [Run 0 t1, Pm2Answer 0 a ts, Run 0 t2, Run 0 t3]
             \<lparr>gateway = g, tasks = [Registered]\<rparr>
         = (if slot_status sv \<noteq> Running
            then (case start_instance a ts n g of
                    (Inl err, g2) \<Rightarrow> \<lparr>gateway = g2, tasks = [Finished None]\<rparr>
                  | (Inr started, g2) \<Rightarrow> \<lparr>gateway = g2, tasks = [Finished (get_instance g2 n)]\<rparr>)
            else \<lparr>gateway = g, tasks = [Finished (Some sv)]\<rparr>)"
proof (cases sv)
  case (Typed s)
  with reg have typed: "getService (table g) n = Some s"
    by (auto simp: get_instance_def split: option.splits)
  consider (running) "status s = Running" | (starting) "status s = Starting"
    | (cold) "status s \<noteq> Running" "status s \<noteq> Starting"
    by blast
  then show ?thesis
  proof cases
    case running
    with reg Typed show ?thesis
      by (simp add: run_task_def call_start_def)
  next
    case starting
    with reg Typed typed show ?thesis
      by (simp add: run_task_def call_start_def start_instance_def start_instance_begin_def
          startService_begin_def)
  next
    case cold
    with reg Typed typed show ?thesis
      by (cases a)
         (simp_all add: run_task_def call_start_def start_instance_def start_instance_begin_def
            start_instance_resume_def startService_begin_def startService_resume_def Let_def)
  qed
next
  case (Strange x)
  consider (running) "stranger_status x = Running" | (starting) "stranger_status x = Starting"
    | (cold) "stranger_status x \<noteq> Running" "stranger_status x \<noteq> Starting"
    by blast
  then show ?thesis
  proof cases
    case running
    with reg Strange show ?thesis
      by (simp add: run_task_def call_start_def)
  next
    case starting
    with reg Strange show ?thesis
      by (simp add: run_task_def call_start_def start_instance_def start_instance_begin_def)
  next
    case cold
    with reg Strange show ?thesis
      by (simp add: run_task_def call_start_def start_instance_def start_instance_begin_def)
  qed
qed

lemma run_alone:
  "run cfg n [Run 0 (t_register e), Run 0 t1, Pm2Answer 0 (start_answer e) (t_started e), Run 0 t2, Run 0 t3]
       \<lparr>gateway = g, tasks = [Entry]\<rparr>
   = \<lparr>gateway = snd (ensureServiceRunning cfg e n g),
      tasks = [Finished (fst (ensureServiceRunning cfg e n g))]\<rparr>"
proof (cases "n = ''.well-known'' \<or> n = ''favicon.ico''")
  case True
  then show ?thesis
    by (auto simp: run_task_def ensureServiceRunning_def)
next
  case False
  then have ni: "n \<noteq> ''.well-known''" "n \<noteq> ''favicon.ico''"
    by simp_all
  show ?thesis
  proof (cases "get_instance g n")
    case (Some sv)
    have seq: "ensureServiceRunning cfg e n g =
        (if slot_status sv \<noteq> Running
         then (case start_instance (start_answer e) (t_started e) n g of
                 (Inl err, g2) \<Rightarrow> (None, g2)
               | (Inr started, g2) \<Rightarrow> (get_instance g2 n, g2))
         else (Some sv, g))"
      using Some ni by (simp add: ensureServiceRunning_def)
    show ?thesis
      unfolding seq alone_registered [OF Some ni]
      by (simp split: prod.split sum.split)
  next
    case None
    note unreg = this
    have after: "run cfg n [Run 0 (t_register e), Run 0 t1, Pm2Answer 0 (start_answer e) (t_started e),
                Run 0 t2, Run 0 t3] \<lparr>gateway = g, tasks = [Entry]\<rparr>
          = \<lparr>gateway = snd (ensureServiceRunning cfg e n g),
             tasks = [Finished (fst (ensureServiceRunning cfg e n g))]\<rparr>"
      if first: "step cfg n (Run 0 (t_register e)) \<lparr>gateway = g, tasks = [Entry]\<rparr>
            = \<lparr>gateway = g1, tasks = [Registered]\<rparr>"
        and fresh: "get_instance g1 n = Some sv"
        and seq: "ensureServiceRunning cfg e n g =
          (if slot_status sv \<noteq> Running
           then (case start_instance (start_answer e) (t_started e) n g1 of
                   (Inl err, g2) \<Rightarrow> (None, g2)
                 | (Inr started, g2) \<Rightarrow> (get_instance g2 n, g2))
           else (Some sv, g1))"
      for g1 sv
    proof -
      have "run cfg n [Run 0 (t_register e), Run 0 t1, Pm2Answer 0 (start_answer e) (t_started e),
                Run 0 t2, Run 0 t3] \<lparr>gateway = g, tasks = [Entry]\<rparr>
            = run cfg n [Run 0 t1, Pm2Answer 0 (start_answer e) (t_started e), Run 0 t2, Run 0 t3]
                \<lparr>gateway = g1, tasks = [Registered]\<rparr>"
        by (simp only: run.simps first)
      also have "\<dots> = (if slot_status sv \<noteq> Running
            then (case start_instance (start_answer e) (t_started e) n g1 of
                    (Inl err, g2) \<Rightarrow> \<lparr>gateway = g2, tasks = [Finished None]\<rparr>
                  | (Inr started, g2) \<Rightarrow> \<lparr>gateway = g2, tasks = [Finished (get_instance g2 n)]\<rparr>)
            else \<lparr>gateway = g1, tasks = [Finished (Some sv)]\<rparr>)"
        by (rule alone_just_registered [OF fresh])
      also have "\<dots> = \<lparr>gateway = snd (ensureServiceRunning cfg e n g),
            tasks = [Finished (fst (ensureServiceRunning cfg e n g))]\<rparr>"
        unfolding seq by (simp split: prod.split sum.split)
      finally show ?thesis .
    qed
    show ?thesis
    proof (cases "services_lookup cfg n")
      case Undefined
      with unreg ni show ?thesis
        by (simp add: run_task_def ensureServiceRunning_def)
    next
      case (Own sc)
      let ?g1 = "register_entry (t_register e) n sc g"
      obtain sv where fresh: "get_instance ?g1 n = Some (Typed sv)"
        using register_entry_fresh [OF unreg] by blast
      show ?thesis
      proof (rule after [OF _ fresh])
        show "step cfg n (Run 0 (t_register e)) \<lparr>gateway = g, tasks = [Entry]\<rparr>
            = \<lparr>gateway = ?g1, tasks = [Registered]\<rparr>"
          using unreg Own ni by (simp add: run_task_def)
        show "ensureServiceRunning cfg e n g =
          (if slot_status (Typed sv) \<noteq> Running
           then (case start_instance (start_answer e) (t_started e) n ?g1 of
                   (Inl err, g2) \<Rightarrow> (None, g2)
                 | (Inr started, g2) \<Rightarrow> (get_instance g2 n, g2))
           else (Some (Typed sv), ?g1))"
          using unreg Own ni fresh by (simp add: ensureServiceRunning_def)
      qed
    next
      case Inherited
      let ?g1 = "register_stranger (t_register e) n g"
      note fresh = register_stranger_fresh [OF unreg, of "t_register e"]
      show ?thesis
      proof (rule after [OF _ fresh])
        show "step cfg n (Run 0 (t_register e)) \<lparr>gateway = g, tasks = [Entry]\<rparr>
            = \<lparr>gateway = ?g1, tasks = [Registered]\<rparr>"
          using unreg Inherited ni by (simp add: run_task_def)
        show "ensureServiceRunning cfg e n g =
          (if slot_status (Strange \<lparr>stranger_name = n, stranger_status = Stopped,
                 stranger_lastActivity = t_register e, stranger_requestCount = 0,
                 stranger_errorCount = 0\<rparr>) \<noteq> Running
           then (case start_instance (start_answer e) (t_started e) n ?g1 of
                   (Inl err, g2) \<Rightarrow> (None, g2)
                 | (Inr started, g2) \<Rightarrow> (get_instance g2 n, g2))
           else (Some (Strange \<lparr>stranger_name = n, stranger_status = Stopped,
                 stranger_lastActivity = t_register e, stranger_requestCount = 0,
                 stranger_errorCount = 0\<rparr>), ?g1))"
          using unreg Inherited ni fresh by (simp add: ensureServiceRunning_def)
      qed
    qed
  qed
qed

lemma example_arrival_tasks:
  "tasks (run (example_config [''hello-world'']) ''hello-world'' example_arrival
            (arrivals 3 (example_manager [])))
   = [StartSettled (Inr ()), AwaitStart, StartSettled (Inr ())]"
  by code_simp

text \<open>
  Why the requests have to be simultaneous: when the first start fails before a later
  request has run, that request finds the instance in \<open>error\<close> and starts it again.
  The two start commands do not overlap.
\<close>

lemma late_request_retries:
  "starts ''hello-world'' (manager (run (example_config [''hello-world'']) ''hello-world''
       [Run 0 2000, Run 0 2000, Pm2Answer 0 (Some (JsError ''spawn failed'')) 2500, Run 1 2600]
       (arrivals 2 (example_manager [])))) = 2
   \<and> in_flight (run (example_config [''hello-world'']) ''hello-world''
       [Run 0 2000, Run 0 2000, Pm2Answer 0 (Some (JsError ''spawn failed'')) 2500, Run 1 2600]
       (arrivals 2 (example_manager []))) = 1"
  by (simp add: arrivals_def example_manager_def example_config_def run_task_def call_start_def
      startService_begin_def startService_resume_def registerService_def getService_def
      mutate_def pm2_issue_def starts_def in_flight_def make_pm2Config_def numeral_2_eq_2
      get_instance_def find_stranger_def services_lookup_def register_entry_def
      start_instance_begin_def start_instance_resume_def)

text \<open>
  Claim C3, as stated, fails: \<open>favicon.ico\<close> is configured and not registered, two
  requests for it run to the end, and no start command has been handed to the
  supervisor.
\<close>

theorem one_start_counterexample:
  "config_services (example_config [''favicon.ico'']) ''favicon.ico'' = Some example_service_config
   \<and> getService (example_manager []) ''favicon.ico'' = None
   \<and> tasks (run (example_config [''favicon.ico'']) ''favicon.ico'' [Run 0 2000, Run 1 2000]
        (arrivals 2 (example_manager []))) = [Finished None, Finished None]
   \<and> starts ''favicon.ico'' (manager (run (example_config [''favicon.ico'']) ''favicon.ico''
        [Run 0 2000, Run 1 2000] (arrivals 2 (example_manager [])))) = 0"
  by code_simp

text \<open>
  Claim C3, amended. Take a configured service name other than \<open>.well-known\<close> and
  \<open>favicon.ico\<close>, not registered or registered and \<open>stopped\<close>, and \<open>N \<ge> 1\<close>
  requests for it that have arrived. However their handlers and the supervisor's
  answers are interleaved (\<open>evs\<close>, \<open>later\<close>: any lists of events):
  \<^item> at no moment are two start commands unanswered;
  \<^item> as long as no start has failed, at most one start command has been issued;
  \<^item> once every request has passed its call of \<open>startService\<close> and no start has
    failed until then (the requests are simultaneous), exactly one start command has
    been issued, and whatever happens afterwards, a failure of that start included,
    no second one is issued.
  Only the request handlers and the supervisor's answers take part: nothing stops the
  service meanwhile.
\<close>

theorem one_start_for_simultaneous_requests:
  assumes ign: "n \<noteq> ''.well-known''" "n \<noteq> ''favicon.ico''"
    and configured: "config_services cfg n = Some serviceConfig"
    and cold: "getService pm n = None \<or> map_option status (getService pm n) = Some Stopped"
    and N: "0 < N"
  shows "in_flight (run cfg n evs (arrivals N pm)) \<le> 1
       \<and> (list_all no_failure evs \<longrightarrow>
            starts n (manager (run cfg n evs (arrivals N pm))) \<le> starts n pm + 1)
       \<and> (list_all no_failure evs \<and> list_all passed (tasks (run cfg n evs (arrivals N pm))) \<longrightarrow>
            starts n (manager (run cfg n (evs @ later) (arrivals N pm))) = starts n pm + 1)"
proof -
  have ni: "\<not> ignored n"
    using ign by (simp add: ignored_def)
  have "no_overlap n (run cfg n evs (arrivals N pm))"
    by (intro run_no_overlap arrivals_no_overlap)
  then have one: "in_flight (run cfg n evs (arrivals N pm)) \<le> 1"
    by (auto simp: no_overlap_def)
  have w0: "window_inv cfg n (starts n pm) (arrivals N pm)"
    using configured cold by (intro arrivals_window) simp_all
  have bound: "starts n (manager (run cfg n evs (arrivals N pm))) \<le> starts n pm + 1"
    if "list_all no_failure evs"
    using run_window [OF ni w0 that] by (rule window_bound)
  have exact: "starts n (manager (run cfg n (evs @ later) (arrivals N pm))) = starts n pm + 1"
    if runs: "list_all no_failure evs" and all: "list_all passed (tasks (run cfg n evs (arrivals N pm)))"
  proof -
    have "tasks (run cfg n evs (arrivals N pm)) \<noteq> []"
      using N by (simp add: arrivals_def flip: length_greater_0_conv)
    with run_window [OF ni w0 runs] all
    have "starts n (manager (run cfg n evs (arrivals N pm))) = starts n pm + 1"
      by (intro window_started)
    then show ?thesis
      by (simp add: run_append run_passed [OF all])
  qed
  from one bound exact show ?thesis by blast
qed

theorem one_start_witness:
  "in_flight (run (example_config [''hello-world'']) ''hello-world'' example_arrival
       (arrivals 3 (example_manager []))) \<le> 1
   \<and> starts ''hello-world'' (manager (run (example_config [''hello-world'']) ''hello-world''
       (example_arrival @ example_aftermath) (arrivals 3 (example_manager [])))) = 1"
proof -
  have cfgd: "config_services (example_config [''hello-world'']) ''hello-world'' = Some example_service_config"
    by (simp add: example_config_def)
  have cold: "getService (example_manager []) ''hello-world'' = None
      \<or> map_option status (getService (example_manager []) ''hello-world'') = Some Stopped"
    by (simp add: getService_def example_manager_def)
  have quiet: "list_all no_failure example_arrival"
    by (simp add: example_arrival_def)
  have all: "list_all passed (tasks (run (example_config [''hello-world'']) ''hello-world'' example_arrival
            (arrivals 3 (example_manager []))))"
    by (simp add: example_arrival_tasks)
  have k: "starts ''hello-world'' (example_manager []) = 0"
    by (simp add: starts_def example_manager_def)
  show ?thesis
    using one_start_for_simultaneous_requests [of "''hello-world''" "example_config [''hello-world'']"
        example_service_config "example_manager []" 3 example_arrival example_aftermath, OF _ _ cfgd cold]
      quiet all k
    by simp
qed

end
